theory Spec2Isabelle
  imports Complex_Main
begin

section \<open>Values exchanged by the gateway\<close>

text \<open>
  The gateway (\<open>api-gateway/server.js\<close>) passes JavaScript values around: request
  bodies, parsed query strings, downstream bodies and the objects handed to
  \<open>res.json\<close>. They are modelled by one datatype; an object keeps its keys in
  insertion order. \<open>JUndefined\<close> is the value of a missing property. A number is a
  JavaScript number, that is, the value \<open>JSON.parse\<close> made of the text that arrived;
  the text on the wire is not part of the model.
\<close>

datatype json =
    JUndefined
  | JNull
  | JBool bool
  | JNum real
  | JStr string
  | JArr "json list"
  | JObj "(string \<times> json) list"

text \<open>JavaScript truthiness, as tested by \<open>!q\<close>, \<open>||\<close> and \<open>if (x)\<close>.\<close>

fun truthy :: "json \<Rightarrow> bool" where
  "truthy JUndefined = False"
| "truthy JNull = False"
| "truthy (JBool b) = b"
| "truthy (JNum n) = (n \<noteq> 0)"
| "truthy (JStr s) = (s \<noteq> [])"
| "truthy (JArr _) = True"
| "truthy (JObj _) = True"

text \<open>
  Property access \<open>v.k\<close>: on \<open>null\<close> and \<open>undefined\<close> it throws a TypeError
  (\<open>None\<close>); on an object it is the stored value or \<open>undefined\<close>; the keys read
  by the gateway (\<open>data\<close>, \<open>results\<close>) are not own properties of any other value.
\<close>

fun get_prop :: "json \<Rightarrow> string \<Rightarrow> json option" where
  "get_prop JUndefined k = None"
| "get_prop JNull k = None"
| "get_prop (JObj kvs) k = (case map_of kvs k of None \<Rightarrow> Some JUndefined | Some v \<Rightarrow> Some v)"
| "get_prop v k = Some JUndefined"

text \<open>Optional chaining \<open>v?.k\<close>: \<open>undefined\<close> on \<open>null\<close> and \<open>undefined\<close>, never throws.\<close>

definition get_prop_opt :: "json \<Rightarrow> string \<Rightarrow> json" where
  "get_prop_opt v k = (case get_prop v k of None \<Rightarrow> JUndefined | Some x \<Rightarrow> x)"

text \<open>\<open>Object.keys(o)\<close> of an object.\<close>

definition keys :: "(string \<times> 'a) list \<Rightarrow> string list" where
  "keys kvs = map fst kvs"

text \<open>
  The Portuguese messages of the source hold letters outside ASCII; they are kept as
  their UTF-8 bytes.
\<close>

definition c_cedil :: string where "c_cedil = [CHR 0xC3, CHR 0xA7]"
definition a_tilde :: string where "a_tilde = [CHR 0xC3, CHR 0xA3]"
definition a_circ :: string where "a_circ = [CHR 0xC3, CHR 0xA2]"
definition e_acute :: string where "e_acute = [CHR 0xC3, CHR 0xA9]"
definition i_acute :: string where "i_acute = [CHR 0xC3, CHR 0xAD]"
definition o_acute :: string where "o_acute = [CHR 0xC3, CHR 0xB3]"

definition Servico :: string where
  "Servico = ''Servi'' @ c_cedil @ ''o ''"

definition indisponivel :: string where
  "indisponivel = ''indispon'' @ i_acute @ ''vel''"

record response =
  res_status :: nat
  res_body :: json

section \<open>Circuit breaker\<close>

text \<open>
  \<open>this.circuitBreakers\<close> is a \<open>Map\<close> from service name to a breaker object
  \<open>{failures, isOpen, isHalfOpen, lastFailure}\<close>. The objects are mutated in place;
  the model returns the updated table. \<open>lastFailure\<close> is \<open>null\<close> until the first
  failure; \<open>now - null\<close> is \<open>now\<close> in JavaScript.
\<close>

record breaker =
  failures :: nat
  isOpen :: bool
  isHalfOpen :: bool
  lastFailure :: "int option"

type_synonym breakers = "string \<rightharpoonup> breaker"

definition num_of :: "int option \<Rightarrow> int" where
  "num_of t = (case t of None \<Rightarrow> 0 | Some x \<Rightarrow> x)"

text \<open>
  \<open>isCircuitOpen(serviceName)\<close>, with \<open>now\<close> the value of \<open>Date.now()\<close> (milliseconds).
  It returns the answer and the table, where an open breaker whose cooldown is over
  has been turned half-open.
\<close>

definition isCircuitOpen :: "string \<Rightarrow> int \<Rightarrow> breakers \<Rightarrow> bool \<times> breakers" where
  "isCircuitOpen serviceName now bs =
     (case bs serviceName of
        None \<Rightarrow> (False, bs)
      | Some b \<Rightarrow>
          if isOpen b \<and> now - num_of (lastFailure b) > 30000
          then (False, bs(serviceName \<mapsto> b\<lparr>isOpen := False, isHalfOpen := True\<rparr>))
          else (isOpen b, bs))"

definition new_breaker :: breaker where
  "new_breaker = \<lparr>failures = 0, isOpen = False, isHalfOpen = False, lastFailure = None\<rparr>"

definition recordFailure :: "string \<Rightarrow> int \<Rightarrow> breakers \<Rightarrow> breakers" where
  "recordFailure serviceName now bs =
     (let b = (case bs serviceName of None \<Rightarrow> new_breaker | Some b \<Rightarrow> b);
          b1 = b\<lparr>failures := failures b + 1, lastFailure := Some now\<rparr>;
          b2 = (if failures b1 \<ge> 3 then b1\<lparr>isOpen := True, isHalfOpen := False\<rparr> else b1)
      in bs(serviceName \<mapsto> b2))"

definition resetCircuitBreaker :: "string \<Rightarrow> breakers \<Rightarrow> breakers" where
  "resetCircuitBreaker serviceName bs =
     (case bs serviceName of
        None \<Rightarrow> bs
      | Some b \<Rightarrow> bs(serviceName \<mapsto> b\<lparr>failures := 0, isOpen := False, isHalfOpen := False\<rparr>))"

text \<open>
  The failure count and the open flag of a name as the gateway sees them: a name
  without an entry counts as a fresh breaker (\<open>recordFailure\<close> starts it from
  \<open>failures: 0, isOpen: false\<close>, \<open>isCircuitOpen\<close> answers \<open>false\<close>).
\<close>

definition failures_of :: "breakers \<Rightarrow> string \<Rightarrow> nat" where
  "failures_of bs n = (case bs n of None \<Rightarrow> 0 | Some b \<Rightarrow> failures b)"

definition open_of :: "breakers \<Rightarrow> string \<Rightarrow> bool" where
  "open_of bs n = (case bs n of None \<Rightarrow> False | Some b \<Rightarrow> isOpen b)"

definition halfOpen_of :: "breakers \<Rightarrow> string \<Rightarrow> bool" where
  "halfOpen_of bs n = (case bs n of None \<Rightarrow> False | Some b \<Rightarrow> isHalfOpen b)"

definition lastFailure_of :: "breakers \<Rightarrow> string \<Rightarrow> int option" where
  "lastFailure_of bs n = (case bs n of None \<Rightarrow> None | Some b \<Rightarrow> lastFailure b)"

text \<open>
  The table keeps, for every entry, that an open or half-open breaker has counted at
  least three failures: the three operations preserve it.
\<close>

definition breaker_ok :: "breaker \<Rightarrow> bool" where
  "breaker_ok b = (if isOpen b \<or> isHalfOpen b then 3 \<le> failures b else True)"

definition table_ok :: "breakers \<Rightarrow> bool" where
  "table_ok bs = (\<forall>b \<in> ran bs. breaker_ok b)"

section \<open>Path rewriting\<close>

text \<open>
  Strings are lists of bytes; a request target is ASCII (anything else arrives
  percent-encoded), so bytes and JavaScript's code units coincide on the paths.
  \<open>s.startsWith(p)\<close>:
\<close>

definition startsWith :: "string \<Rightarrow> string \<Rightarrow> bool" where
  "startsWith s p = (take (length p) s = p)"

text \<open>
  \<open>s.replace(pat, rep)\<close> with a string pattern: the first occurrence of \<open>pat\<close>, from
  the left, is replaced; a string without one is returned as it is. (The replacement
  strings of the gateway hold no \<open>$\<close>, so they are inserted literally.)
\<close>

fun replace_str :: "string \<Rightarrow> string \<Rightarrow> string \<Rightarrow> string" where
  "replace_str [] pat rep = (if pat = [] then rep else [])"
| "replace_str (c # cs) pat rep =
     (if startsWith (c # cs) pat then rep @ drop (length pat) (c # cs)
      else c # replace_str cs pat rep)"

text \<open>
  The computation of \<open>targetPath\<close> from \<open>req.originalUrl\<close> inside \<open>proxyRequest\<close>
  (\<open>originalUrl\<close> is the request target as received, query string included). A
  service name other than the three leaves \<open>targetPath\<close> empty.
\<close>

definition targetPath :: "string \<Rightarrow> string \<Rightarrow> string" where
  "targetPath serviceName originalPath =
     (if serviceName = ''user-service'' then
        (let t = (if startsWith originalPath ''/api/auth''
                  then replace_str originalPath ''/api/auth'' ''/auth''
                  else replace_str originalPath ''/api/users'' ''/users'');
             t = (if \<not> startsWith t ''/'' then ''/'' @ t else t)
         in if t = ''/'' \<or> t = '''' then ''/users'' else t)
      else if serviceName = ''item-service'' then
        (let t = (if startsWith originalPath ''/api/categories''
                  then replace_str originalPath ''/api/categories'' ''/categories''
                  else if startsWith originalPath ''/api/search/items''
                  then replace_str originalPath ''/api/search/items'' ''/search''
                  else replace_str originalPath ''/api/items'' ''/items'');
             t = (if \<not> startsWith t ''/'' then ''/'' @ t else t)
         in if t = ''/'' \<or> t = '''' then ''/items'' else t)
      else if serviceName = ''list-service'' then
        (let t = replace_str originalPath ''/api/lists'' ''/lists'';
             t = (if \<not> startsWith t ''/'' then ''/'' @ t else t)
         in if t = ''/'' \<or> t = '''' then ''/lists'' else t)
      else '''')"

text \<open>\<open>s.includes(pat)\<close>: \<open>pat\<close> occurs somewhere in \<open>s\<close>.\<close>

fun contains_str :: "string \<Rightarrow> string \<Rightarrow> bool" where
  "contains_str [] pat = (pat = [])"
| "contains_str (c # cs) pat = (startsWith (c # cs) pat \<or> contains_str cs pat)"

section \<open>Errors\<close>

text \<open>
  A JavaScript error as the gateway reads it: \<open>error.code\<close>, \<open>error.message\<close> and, on an
  error of the HTTP client that carries a response, \<open>error.response\<close>.
\<close>

record js_error =
  err_code :: "string option"
  err_message :: string
  err_response :: "response option"

section \<open>Service registry\<close>

text \<open>
  Modelled from the spec: the registry record and table of \<open>shared/serviceRegistry.js\<close>,
  which is not among the sources. Per section 3 a record holds the service's base
  address and its last known health (the other fields play no part in routing), and
  the registry maps a service name to at most one record. The mapping is kept as an
  association list, so that \<open>Object.keys\<close> has an order.
\<close>

record serviceRecord =
  svc_url :: string
  svc_healthy :: bool

type_synonym registry = "(string \<times> serviceRecord) list"

text \<open>
  Modelled from the spec: the error of \<open>serviceRegistry.discover\<close>, a
  ServiceNotFoundError. The text of its message is not given by the spec; only its
  being a string is used.
\<close>

definition serviceNotFoundError :: "string \<Rightarrow> js_error" where
  "serviceNotFoundError serviceName =
     \<lparr>err_code = None, err_message = ''Service not found: '' @ serviceName, err_response = None\<rparr>"

text \<open>
  Modelled from the spec: \<open>serviceRegistry.discover(name)\<close>. Per section 4.1 it returns
  the current record of \<open>name\<close> and fails with a ServiceNotFoundError when there is
  none.
\<close>

definition discover :: "registry \<Rightarrow> string \<Rightarrow> js_error + serviceRecord" where
  "discover reg serviceName =
     (case map_of reg serviceName of
        None \<Rightarrow> Inl (serviceNotFoundError serviceName)
      | Some r \<Rightarrow> Inr r)"

text \<open>
  Modelled from the spec: \<open>serviceRegistry.listServices()\<close>. Per section 4.1 it returns
  the whole mapping from name to record.
\<close>

definition listServices :: "registry \<Rightarrow> json" where
  "listServices reg =
     JObj (map (\<lambda>(n, r). (n, JObj [(''url'', JStr (svc_url r)), (''healthy'', JBool (svc_healthy r))])) reg)"

section \<open>Requests and the HTTP client\<close>

text \<open>
  An inbound request as Express hands it over: header names are in lower case,
  \<open>req.query\<close> is the parsed query string (its values are strings, arrays or objects).
\<close>

record request =
  req_method :: string
  req_originalUrl :: string
  req_headers :: "(string \<times> string) list"
  req_body :: json
  req_query :: "(string \<times> json) list"

text \<open>
  The configuration object handed to \<open>axios\<close>. A field that the source leaves unset
  is \<open>None\<close>.
\<close>

record axios_config =
  cfg_method :: string
  cfg_url :: string
  cfg_headers :: "(string \<times> string) list option"
  cfg_timeout :: nat
  cfg_family :: "nat option"
  cfg_validateStatus :: "(nat \<Rightarrow> bool) option"
  cfg_data :: "json option"
  cfg_params :: "(string \<times> json) list option"

text \<open>
  What the network does with a request. The downstream answers with a status and a
  body; or it answers with a redirect (a 3xx status with a \<open>Location\<close> header), and
  the outcome of the request to that location follows; or the call fails below HTTP
  with an error code (\<open>ECONNREFUSED\<close>, \<open>ETIMEDOUT\<close>, ...) and a message; or no
  answer arrives within the timeout of the request. The network is a parameter of
  the model.
\<close>

datatype net_outcome =
    Answered nat json
  | Redirected nat string net_outcome
  | NetError "string option" string
  | NoAnswer

type_synonym network = "axios_config \<Rightarrow> net_outcome"

text \<open>A number written in decimal, as a template string does.\<close>

fun digits :: "nat \<Rightarrow> string" where
  "digits n =
     (if n < 10 then [''0123456789'' ! n]
      else digits (n div 10) @ [''0123456789'' ! (n mod 10)])"

declare digits.simps [simp del]

text \<open>
  \<open>axios(config)\<close>, a library call. Redirects are followed (neither
  configuration of the gateway sets \<open>maxRedirects\<close>; giving up on a chain that is too
  long is a failure below HTTP at that point of the chain). The promise resolves
  with the last response when \<open>validateStatus\<close> accepts its status (by default the
  statuses 200 to 299) and is rejected otherwise with an error that carries the
  response. A failure below
  HTTP rejects with an error that carries the code and no response. When no answer
  arrives within \<open>config.timeout\<close> milliseconds the promise is rejected with code
  \<open>ECONNABORTED\<close>, the message \<open>timeout of ...ms exceeded\<close> and no response. \<open>Inl\<close>
  is the rejection.
\<close>

definition validates :: "axios_config \<Rightarrow> nat \<Rightarrow> bool" where
  "validates config status =
     (case cfg_validateStatus config of
        None \<Rightarrow> 200 \<le> status \<and> status < 300
      | Some f \<Rightarrow> f status)"

fun settle :: "axios_config \<Rightarrow> net_outcome \<Rightarrow> js_error + response" where
  "settle config (Redirected status location outcome) = settle config outcome"
| "settle config (Answered status body) =
     (if validates config status
      then Inr \<lparr>res_status = status, res_body = body\<rparr>
      else Inl \<lparr>err_code = (if status div 100 = 4 then Some ''ERR_BAD_REQUEST''
                             else if status div 100 = 5 then Some ''ERR_BAD_RESPONSE''
                             else None),
                err_message = ''Request failed with status code '' @ digits status,
                err_response = Some \<lparr>res_status = status, res_body = body\<rparr>\<rparr>)"
| "settle config (NetError code msg) =
     Inl \<lparr>err_code = code, err_message = msg, err_response = None\<rparr>"
| "settle config NoAnswer =
     Inl \<lparr>err_code = Some ''ECONNABORTED'',
          err_message = ''timeout of '' @ digits (cfg_timeout config) @ ''ms exceeded'',
          err_response = None\<rparr>"

definition axios :: "network \<Rightarrow> axios_config \<Rightarrow> js_error + response" where
  "axios net config = settle config (net config)"

text \<open>
  The response or failure at the end of the redirects, which is all the caller of
  \<open>axios\<close> gets to see of the network.
\<close>

fun final :: "net_outcome \<Rightarrow> net_outcome" where
  "final (Redirected status location outcome) = final outcome"
| "final outcome = outcome"

text \<open>What a handler did besides answering: registry reads and network calls, in order.\<close>

datatype effect =
    Discover string
  | ListServices
  | Request axios_config

fun is_network_call :: "effect \<Rightarrow> bool" where
  "is_network_call (Request _) = True"
| "is_network_call _ = False"

fun is_registry_lookup :: "effect \<Rightarrow> bool" where
  "is_registry_lookup (Discover _) = True"
| "is_registry_lookup ListServices = True"
| "is_registry_lookup _ = False"

section \<open>proxyRequest\<close>

text \<open>The request configuration built by \<open>proxyRequest\<close> for a discovered service.\<close>

definition proxyConfig :: "serviceRecord \<Rightarrow> string \<Rightarrow> request \<Rightarrow> axios_config" where
  "proxyConfig service serviceName req =
     \<lparr>cfg_method = req_method req,
      cfg_url = svc_url service @ targetPath serviceName (req_originalUrl req),
      cfg_headers = Some (filter (\<lambda>(k, v). k \<noteq> ''host'' \<and> k \<noteq> ''content-length'') (req_headers req)),
      cfg_timeout = 10000,
      cfg_family = Some 4,
      cfg_validateStatus = Some (\<lambda>status. status < 500),
      cfg_data = (if req_method req \<in> set [''POST'', ''PUT'', ''PATCH''] then Some (req_body req) else None),
      cfg_params = (if length (keys (req_query req)) > 0 then Some (req_query req) else None)\<rparr>"

text \<open>The answer of the \<open>catch\<close> block of \<open>proxyRequest\<close>.\<close>

definition proxyErrorResponse :: "string \<Rightarrow> js_error \<Rightarrow> response" where
  "proxyErrorResponse serviceName error =
     (if err_code error = Some ''ECONNREFUSED'' \<or> err_code error = Some ''ETIMEDOUT'' then
        \<lparr>res_status = 503,
         res_body = JObj [(''success'', JBool False),
                          (''message'', JStr (Servico @ serviceName @ '' '' @ indisponivel)),
                          (''service'', JStr serviceName),
                          (''error'', (case err_code error of None \<Rightarrow> JUndefined | Some c \<Rightarrow> JStr c))]\<rparr>
      else case err_response error of
        Some r \<Rightarrow> \<lparr>res_status = res_status r, res_body = res_body r\<rparr>
      | None \<Rightarrow>
        \<lparr>res_status = 500,
         res_body = JObj [(''success'', JBool False),
                          (''message'', JStr ''Erro interno do gateway''),
                          (''service'', JStr ''api-gateway''),
                          (''error'', JStr (err_message error))]\<rparr>)"

text \<open>
  \<open>proxyRequest(serviceName, req, res, next)\<close>. \<open>now\<close> is the clock read by
  \<open>isCircuitOpen\<close> on entry, \<open>later\<close> the clock read by \<open>recordFailure\<close> once the
  forwarded call has failed. The result is the response sent, the breaker table
  afterwards and the effects.
\<close>

definition proxyRequest ::
  "registry \<Rightarrow> network \<Rightarrow> int \<Rightarrow> int \<Rightarrow> string \<Rightarrow> request \<Rightarrow> breakers
     \<Rightarrow> response \<times> breakers \<times> effect list" where
  "proxyRequest reg net now later serviceName req bs =
     (case isCircuitOpen serviceName now bs of
        (True, bs1) \<Rightarrow>
          (\<lparr>res_status = 503,
            res_body = JObj [(''success'', JBool False),
                             (''message'', JStr (Servico @ serviceName @ '' temporariamente '' @ indisponivel)),
                             (''service'', JStr serviceName)]\<rparr>,
           bs1, [])
      | (False, bs1) \<Rightarrow>
          (case discover reg serviceName of
             Inl e \<Rightarrow>
               (\<lparr>res_status = 503,
                 res_body = JObj [(''success'', JBool False),
                                  (''message'', JStr (Servico @ serviceName @ '' n'' @ a_tilde @ ''o encontrado'')),
                                  (''service'', JStr serviceName),
                                  (''availableServices'', JArr (map JStr (keys reg)))]\<rparr>,
                bs1, [Discover serviceName, ListServices])
           | Inr service \<Rightarrow>
               (let config = proxyConfig service serviceName req in
                case axios net config of
                  Inr r \<Rightarrow>
                    (\<lparr>res_status = res_status r, res_body = res_body r\<rparr>,
                     resetCircuitBreaker serviceName bs1,
                     [Discover serviceName, Request config])
                | Inl error \<Rightarrow>
                    (proxyErrorResponse serviceName error,
                     recordFailure serviceName later bs1,
                     [Discover serviceName, Request config]))))"

section \<open>Aggregated endpoints\<close>

text \<open>\<open>req.header('Authorization')\<close>; a missing header is \<open>undefined\<close>.\<close>

definition authorization :: "request \<Rightarrow> string option" where
  "authorization req = map_of (req_headers req) ''authorization''"

text \<open>Truthiness of a string or \<open>undefined\<close>/\<open>null\<close>, for \<open>if (authHeader)\<close>.\<close>

definition present :: "string option \<Rightarrow> bool" where
  "present h = (case h of None \<Rightarrow> False | Some s \<Rightarrow> s \<noteq> [])"

text \<open>
  \<open>callService(serviceName, path, method, authHeader, params)\<close>: an async function, so
  the error of \<open>discover\<close> and the rejection of \<open>axios\<close> both reject its promise
  (\<open>Inl\<close>); otherwise it is fulfilled with \<open>response.data\<close>. It never consults the
  breaker table.
\<close>

definition callConfig ::
  "serviceRecord \<Rightarrow> string \<Rightarrow> string \<Rightarrow> string option \<Rightarrow> (string \<times> json) list \<Rightarrow> axios_config" where
  "callConfig service path method authHeader params =
     \<lparr>cfg_method = method,
      cfg_url = svc_url service @ path,
      cfg_headers = (case authHeader of
                       None \<Rightarrow> None
                     | Some h \<Rightarrow> if h \<noteq> [] then Some [(''Authorization'', h)] else None),
      cfg_timeout = 5000,
      cfg_family = None,
      cfg_validateStatus = None,
      cfg_data = None,
      cfg_params = (if method = ''GET'' \<and> length (keys params) > 0 then Some params else None)\<rparr>"

definition callService ::
  "registry \<Rightarrow> network \<Rightarrow> string \<Rightarrow> string \<Rightarrow> string \<Rightarrow> string option \<Rightarrow> (string \<times> json) list
     \<Rightarrow> (js_error + json) \<times> effect list" where
  "callService reg net serviceName path method authHeader params =
     (case discover reg serviceName of
        Inl e \<Rightarrow> (Inl e, [Discover serviceName])
      | Inr service \<Rightarrow>
          (let config = callConfig service path method authHeader params in
           case axios net config of
             Inl e \<Rightarrow> (Inl e, [Discover serviceName, Request config])
           | Inr r \<Rightarrow> (Inr (res_body r), [Discover serviceName, Request config])))"

text \<open>
  One entry of the dashboard, from the settled promise of its call
  (\<open>Inr\<close>: fulfilled, \<open>Inl\<close>: rejected). Reading \<open>.data\<close> of a fulfilled value that is
  \<open>null\<close> or \<open>undefined\<close> throws (\<open>None\<close>).
\<close>

definition dashboardEntry :: "js_error + json \<Rightarrow> json option" where
  "dashboardEntry settled =
     (case settled of
        Inr v \<Rightarrow>
          (case get_prop v ''data'' of
             None \<Rightarrow> None
           | Some d \<Rightarrow> Some (JObj [(''available'', JBool True), (''data'', d), (''error'', JNull)]))
      | Inl reason \<Rightarrow>
          Some (JObj [(''available'', JBool False), (''data'', JNull),
                      (''error'', JStr (err_message reason))]))"

text \<open>
  \<open>getDashboard(req, res)\<close>; \<open>timestamp\<close> is \<open>new Date().toISOString()\<close>. All four
  calls are started before any is awaited. A throw inside the \<open>try\<close> block gives the
  500 answer of the \<open>catch\<close> block.
\<close>

definition getDashboard :: "registry \<Rightarrow> network \<Rightarrow> string \<Rightarrow> request \<Rightarrow> response \<times> effect list" where
  "getDashboard reg net timestamp req =
     (let authHeader = authorization req in
      if \<not> present authHeader then
        (\<lparr>res_status = 401,
          res_body = JObj [(''success'', JBool False),
                           (''message'', JStr (''Token de autentica'' @ c_cedil @ a_tilde @ ''o obrigat'' @ o_acute
                                               @ ''rio para acessar o dashboard''))]\<rparr>,
         [])
      else
        (let (userResponse, e1) = callService reg net ''user-service'' ''/users/profile'' ''GET'' authHeader [];
             (itemsResponse, e2) = callService reg net ''item-service'' ''/items'' ''GET'' None [(''limit'', JNum 10)];
             (listsResponse, e3) = callService reg net ''list-service'' ''/lists'' ''GET'' authHeader [(''limit'', JNum 5)];
             (categoriesResponse, e4) = callService reg net ''item-service'' ''/categories'' ''GET'' None [];
             effects = e1 @ e2 @ e3 @ e4 @ [ListServices]
         in case (dashboardEntry userResponse, dashboardEntry listsResponse,
                  dashboardEntry itemsResponse, dashboardEntry categoriesResponse) of
              (Some profileE, Some listsE, Some itemsE, Some categoriesE) \<Rightarrow>
                (\<lparr>res_status = 200,
                  res_body = JObj [(''success'', JBool True),
                    (''data'', JObj [(''timestamp'', JStr timestamp),
                       (''domain'', JStr ''Sistema de Lista de Compras''),
                       (''architecture'', JStr ''Microservices with NoSQL''),
                       (''database_approach'', JStr ''Database per Service''),
                       (''services_status'', listServices reg),
                       (''user_data'', JObj [(''profile'', profileE)]),
                       (''shopping_data'', JObj [(''lists'', listsE), (''items'', itemsE),
                                                 (''categories'', categoriesE)])])]\<rparr>,
                 effects)
            | _ \<Rightarrow>
                (\<lparr>res_status = 500,
                  res_body = JObj [(''success'', JBool False),
                                   (''message'', JStr ''Erro ao agregar dados do dashboard'')]\<rparr>,
                 effects)))"

text \<open>
  One entry of the global search:
  \<open>value.data?.results || value.data\<close> when fulfilled, \<open>[]\<close> when rejected.
\<close>

definition searchEntry :: "js_error + json \<Rightarrow> json option" where
  "searchEntry settled =
     (case settled of
        Inr v \<Rightarrow>
          (case get_prop v ''data'' of
             None \<Rightarrow> None
           | Some d \<Rightarrow>
               (let r = get_prop_opt d ''results'' in
                Some (JObj [(''available'', JBool True),
                            (''results'', if truthy r then r else d),
                            (''error'', JNull)])))
      | Inl reason \<Rightarrow>
          Some (JObj [(''available'', JBool False), (''results'', JArr []),
                      (''error'', JStr (err_message reason))]))"

text \<open>\<open>const { q } = req.query\<close>.\<close>

definition query_q :: "request \<Rightarrow> json" where
  "query_q req = (case map_of (req_query req) ''q'' of None \<Rightarrow> JUndefined | Some v \<Rightarrow> v)"

definition searchError :: response where
  "searchError =
     \<lparr>res_status = 500,
      res_body = JObj [(''success'', JBool False), (''message'', JStr ''Erro na busca'')]\<rparr>"

text \<open>\<open>globalSearch(req, res)\<close>.\<close>

definition globalSearch :: "registry \<Rightarrow> network \<Rightarrow> request \<Rightarrow> response \<times> effect list" where
  "globalSearch reg net req =
     (let q = query_q req in
      if \<not> truthy q then
        (\<lparr>res_status = 400,
          res_body = JObj [(''success'', JBool False),
                           (''message'', JStr (''Par'' @ a_circ @ ''metro de busca \"q\" ''
                                               @ e_acute @ '' obrigat'' @ o_acute @ ''rio''))]\<rparr>,
         [])
      else
        (let authHeader = authorization req;
             (itemResults, e1) = callService reg net ''item-service'' ''/search'' ''GET'' None [(''q'', q)]
         in if present authHeader then
              (let (listResults, e2) =
                     callService reg net ''list-service'' ''/search'' ''GET'' authHeader
                       [(''q'', q), (''limit'', JNum 10)]
               in case searchEntry itemResults of
                    None \<Rightarrow> (searchError, e1 @ e2)
                  | Some itemsE \<Rightarrow>
                      (case searchEntry listResults of
                         None \<Rightarrow> (searchError, e1 @ e2)
                       | Some listsE \<Rightarrow>
                           (\<lparr>res_status = 200,
                             res_body = JObj [(''success'', JBool True),
                               (''data'', JObj [(''query'', q), (''items'', itemsE), (''lists'', listsE)])]\<rparr>,
                            e1 @ e2)))
            else
              (case searchEntry itemResults of
                 None \<Rightarrow> (searchError, e1)
               | Some itemsE \<Rightarrow>
                   (\<lparr>res_status = 200,
                     res_body = JObj [(''success'', JBool True),
                       (''data'', JObj [(''query'', q), (''items'', itemsE)])]\<rparr>,
                    e1))))"

section \<open>The gateway's own error answers\<close>



section \<open>Reading a response body\<close>

text \<open>The value found by following a path of keys; a missing step gives \<open>undefined\<close>.\<close>

fun at_path :: "json \<Rightarrow> string list \<Rightarrow> json" where
  "at_path v [] = v"
| "at_path v (k # ks) = at_path (get_prop_opt v k) ks"

text \<open>The keys of an object, in order; no keys for any other value.\<close>

fun obj_keys :: "json \<Rightarrow> string list" where
  "obj_keys (JObj kvs) = keys kvs"
| "obj_keys _ = []"

text \<open>A settled call that was fulfilled with \<open>null\<close> or \<open>undefined\<close>.\<close>

definition fulfilled_nullish :: "js_error + json \<Rightarrow> bool" where
  "fulfilled_nullish settled = (settled = Inr JNull \<or> settled = Inr JUndefined)"

text \<open>
  What an entry of the dashboard says about its call: for a rejected call
  \<open>available: false\<close>, the reason's message as \<open>error\<close> and \<open>data: null\<close>; for a fulfilled
  call \<open>available: true\<close> and \<open>error: null\<close>.
\<close>

definition dashboard_outcome :: "json \<Rightarrow> js_error + json \<Rightarrow> bool" where
  "dashboard_outcome entry settled =
     (case settled of
        Inl reason \<Rightarrow>
          get_prop entry ''available'' = Some (JBool False) \<and>
          get_prop entry ''error'' = Some (JStr (err_message reason)) \<and>
          get_prop entry ''data'' = Some JNull
      | Inr v \<Rightarrow>
          get_prop entry ''available'' = Some (JBool True) \<and>
          get_prop entry ''error'' = Some JNull)"

text \<open>
  The same for an entry of the global search, whose payload is \<open>results\<close>: an empty
  array for a rejected call, and there is no \<open>data\<close> key.
\<close>

definition search_outcome :: "json \<Rightarrow> js_error + json \<Rightarrow> bool" where
  "search_outcome entry settled =
     (case settled of
        Inl reason \<Rightarrow>
          get_prop entry ''available'' = Some (JBool False) \<and>
          get_prop entry ''error'' = Some (JStr (err_message reason)) \<and>
          get_prop entry ''results'' = Some (JArr []) \<and>
          get_prop entry ''data'' = Some JUndefined
      | Inr v \<Rightarrow>
          get_prop entry ''available'' = Some (JBool True) \<and>
          get_prop entry ''error'' = Some JNull)"





section \<open>Example inputs\<close>

definition example_registry :: registry where
  "example_registry = [(''item-service'', \<lparr>svc_url = ''http://localhost:3003'', svc_healthy = True\<rparr>)]"

definition example_request :: request where
  "example_request =
     \<lparr>req_method = ''GET'', req_originalUrl = ''/api/items/42'',
      req_headers = [(''host'', ''localhost:3000'')], req_body = JUndefined, req_query = []\<rparr>"

definition net_ok :: network where
  "net_ok = (\<lambda>config. Answered 200 (JObj [(''success'', JBool True)]))"

definition net_refused :: network where
  "net_refused = (\<lambda>config. NetError (Some ''ECONNREFUSED'') ''connect ECONNREFUSED 127.0.0.1:3003'')"

definition net_unhealthy :: network where
  "net_unhealthy = (\<lambda>config. Answered 500 (JObj [(''success'', JBool False)]))"

text \<open>A downstream that redirects to the same path with a trailing slash.\<close>

definition net_redirect :: network where
  "net_redirect =
     (\<lambda>config. Redirected 302 ''http://localhost:3003/items/42/''
                  (Answered 200 (JObj [(''success'', JBool True)])))"

text \<open>A downstream that accepts the connection and never answers.\<close>

definition net_silent :: network where
  "net_silent = (\<lambda>config. NoAnswer)"

text \<open>The breaker table after three failures of \<open>item-service\<close> at time 0.\<close>

definition three_failures :: breakers where
  "three_failures =
     recordFailure ''item-service'' 0 (recordFailure ''item-service'' 0
       (recordFailure ''item-service'' 0 Map.empty))"

definition registry_without_items :: registry where
  "registry_without_items = [(''user-service'', \<lparr>svc_url = ''http://localhost:3001'', svc_healthy = True\<rparr>)]"

definition full_registry :: registry where
  "full_registry =
     [(''user-service'', \<lparr>svc_url = ''http://localhost:3001'', svc_healthy = True\<rparr>),
      (''list-service'', \<lparr>svc_url = ''http://localhost:3002'', svc_healthy = True\<rparr>),
      (''item-service'', \<lparr>svc_url = ''http://localhost:3003'', svc_healthy = True\<rparr>)]"

definition dashboard_request :: request where
  "dashboard_request =
     \<lparr>req_method = ''GET'', req_originalUrl = ''/api/dashboard'',
      req_headers = [(''host'', ''localhost:3000''), (''authorization'', ''Bearer abc'')],
      req_body = JUndefined, req_query = []\<rparr>"

definition dashboard_request_anonymous :: request where
  "dashboard_request_anonymous =
     \<lparr>req_method = ''GET'', req_originalUrl = ''/api/dashboard'',
      req_headers = [(''host'', ''localhost:3000'')], req_body = JUndefined, req_query = []\<rparr>"

definition search_request :: request where
  "search_request =
     \<lparr>req_method = ''GET'', req_originalUrl = ''/api/search?q=leite'',
      req_headers = [(''host'', ''localhost:3000'')], req_body = JUndefined,
      req_query = [(''q'', JStr ''leite'')]\<rparr>"

text \<open>\<open>GET /api/search?q=&q=\<close>: the parser makes an array of the repeated parameter.\<close>

definition search_request_empty_qs :: request where
  "search_request_empty_qs =
     \<lparr>req_method = ''GET'', req_originalUrl = ''/api/search?q=&q='',
      req_headers = [(''host'', ''localhost:3000'')], req_body = JUndefined,
      req_query = [(''q'', JArr [JStr [], JStr []])]\<rparr>"

definition search_request_without_q :: request where
  "search_request_without_q =
     \<lparr>req_method = ''GET'', req_originalUrl = ''/api/search'',
      req_headers = [(''host'', ''localhost:3000'')], req_body = JUndefined, req_query = []\<rparr>"

section \<open>Facts about the breaker table\<close>

lemma failures_of_recordFailure [simp]:
  "failures_of (recordFailure n t bs) n = failures_of bs n + 1"
  by (simp add: recordFailure_def failures_of_def Let_def new_breaker_def split: option.splits)

lemma open_of_recordFailure:
  "open_of (recordFailure n t bs) n = (2 \<le> failures_of bs n \<or> open_of bs n)"
  by (auto simp: recordFailure_def failures_of_def open_of_def Let_def new_breaker_def
      split: option.splits)

lemma lastFailure_of_recordFailure [simp]:
  "lastFailure_of (recordFailure n t bs) n = Some t"
  by (auto simp: recordFailure_def lastFailure_of_def Let_def split: option.splits)

lemma failures_of_reset [simp]:
  "failures_of (resetCircuitBreaker n bs) n = 0"
  by (simp add: resetCircuitBreaker_def failures_of_def split: option.splits)

lemma open_of_reset [simp]:
  "\<not> open_of (resetCircuitBreaker n bs) n"
  by (simp add: resetCircuitBreaker_def open_of_def split: option.splits)

lemma halfOpen_of_reset [simp]:
  "\<not> halfOpen_of (resetCircuitBreaker n bs) n"
  by (simp add: resetCircuitBreaker_def halfOpen_of_def split: option.splits)

lemma isCircuitOpen_within_cooldown:
  "open_of bs n \<Longrightarrow> lastFailure_of bs n = Some t \<Longrightarrow> now - t \<le> 30000
     \<Longrightarrow> isCircuitOpen n now bs = (True, bs)"
  by (auto simp: isCircuitOpen_def open_of_def lastFailure_of_def num_of_def split: option.splits)

lemma isCircuitOpen_after_cooldown:
  "open_of bs n \<Longrightarrow> lastFailure_of bs n = Some t \<Longrightarrow> now - t > 30000
     \<Longrightarrow> fst (isCircuitOpen n now bs) = False"
  by (auto simp: isCircuitOpen_def open_of_def lastFailure_of_def num_of_def split: option.splits)

lemma isCircuitOpen_closed:
  "\<not> open_of bs n \<Longrightarrow> isCircuitOpen n now bs = (False, bs)"
  by (auto simp: isCircuitOpen_def open_of_def split: option.splits)

lemma failures_of_isCircuitOpen [simp]:
  "failures_of (snd (isCircuitOpen n now bs)) n = failures_of bs n"
  by (auto simp: isCircuitOpen_def failures_of_def split: option.splits)

lemma isCircuitOpen_false_not_open:
  "fst (isCircuitOpen n now bs) = False \<Longrightarrow> \<not> open_of (snd (isCircuitOpen n now bs)) n"
  by (auto simp: isCircuitOpen_def open_of_def split: option.splits if_splits)

lemma table_ok_empty: "table_ok Map.empty"
  by (simp add: table_ok_def)

lemma table_ok_upd: "table_ok bs \<Longrightarrow> breaker_ok b \<Longrightarrow> table_ok (bs(n \<mapsto> b))"
  by (auto simp: table_ok_def ran_def split: if_splits)

lemma table_ok_lookup: "table_ok bs \<Longrightarrow> bs n = Some b \<Longrightarrow> breaker_ok b"
  by (auto simp: table_ok_def ran_def)

lemma table_ok_recordFailure: "table_ok bs \<Longrightarrow> table_ok (recordFailure n t bs)"
  unfolding recordFailure_def Let_def
  by (rule table_ok_upd)
     (auto simp: breaker_ok_def new_breaker_def dest: table_ok_lookup split: option.splits if_splits)

lemma table_ok_reset: "table_ok bs \<Longrightarrow> table_ok (resetCircuitBreaker n bs)"
  unfolding resetCircuitBreaker_def
  by (auto simp: breaker_ok_def intro!: table_ok_upd split: option.splits)

lemma table_ok_isCircuitOpen: "table_ok bs \<Longrightarrow> table_ok (snd (isCircuitOpen n now bs))"
  unfolding isCircuitOpen_def
  by (auto simp: breaker_ok_def intro!: table_ok_upd dest: table_ok_lookup split: option.splits if_splits)

lemma table_ok_proxyRequest:
  assumes "table_ok bs"
  shows "table_ok (fst (snd (proxyRequest reg net now later n req bs)))"
proof -
  obtain ans bs1 where ic: "isCircuitOpen n now bs = (ans, bs1)"
    by (cases "isCircuitOpen n now bs")
  have ok1: "table_ok bs1"
    using table_ok_isCircuitOpen [OF assms, of n now] ic by simp
  show ?thesis
    unfolding proxyRequest_def Let_def ic
    by (cases ans) (simp_all add: ok1 table_ok_reset table_ok_recordFailure split: sum.splits)
qed

lemma open_breaker_has_three_failures:
  "table_ok bs \<Longrightarrow> bs n = Some b \<Longrightarrow> isOpen b \<Longrightarrow> 3 \<le> failures b"
  using table_ok_lookup [of bs n b] by (simp add: breaker_ok_def)

section \<open>Three failures open the breaker\<close>

text \<open>
  A forwarded call that failed leaves the table as \<open>recordFailure\<close> makes it, and one
  that succeeded as \<open>resetCircuitBreaker\<close> makes it.
\<close>

lemma proxyRequest_failed_table:
  assumes "\<not> open_of bs n" and "discover reg n = Inr service"
      and "axios net (proxyConfig service n req) = Inl e"
  shows "fst (snd (proxyRequest reg net now later n req bs)) = recordFailure n later bs"
  using assms by (simp add: proxyRequest_def isCircuitOpen_closed)

lemma proxyRequest_succeeded_table:
  assumes "\<not> open_of bs n" and "discover reg n = Inr service"
      and "axios net (proxyConfig service n req) = Inr r"
  shows "fst (snd (proxyRequest reg net now later n req bs)) = resetCircuitBreaker n bs"
  using assms by (simp add: proxyRequest_def isCircuitOpen_closed)

text \<open>
  C1 (as stated, refuted). Three failures of \<open>item-service\<close> are recorded at time 0 and
  the next request arrives 30001 ms later, the service being registered and healthy:
  the breaker's \<open>isOpen\<close> flag is set when the request arrives, yet the request is
  looked up in the registry, forwarded, and answered with the downstream's 200.
\<close>

theorem C1_next_request_after_cooldown_is_forwarded:
  "open_of three_failures ''item-service'' \<and>
   proxyRequest example_registry net_ok 30001 30001 ''item-service'' example_request three_failures =
     (\<lparr>res_status = 200, res_body = JObj [(''success'', JBool True)]\<rparr>,
      resetCircuitBreaker ''item-service'' (snd (isCircuitOpen ''item-service'' 30001 three_failures)),
      [Discover ''item-service'',
       Request (proxyConfig \<lparr>svc_url = ''http://localhost:3003'', svc_healthy = True\<rparr>
                  ''item-service'' example_request)])"
proof -
  have o: "open_of three_failures ''item-service''"
    by (simp add: three_failures_def open_of_recordFailure)
  have l: "lastFailure_of three_failures ''item-service'' = Some 0"
    by (simp add: three_failures_def)
  have "fst (isCircuitOpen ''item-service'' 30001 three_failures) = False"
    by (rule isCircuitOpen_after_cooldown [OF o l]) simp
  then obtain bs1 where ic: "isCircuitOpen ''item-service'' 30001 three_failures = (False, bs1)"
    by (cases "isCircuitOpen ''item-service'' 30001 three_failures") simp
  have d: "discover example_registry ''item-service'' =
             Inr \<lparr>svc_url = ''http://localhost:3003'', svc_healthy = True\<rparr>"
    by (simp add: discover_def example_registry_def)
  have a: "axios net_ok (proxyConfig \<lparr>svc_url = ''http://localhost:3003'', svc_healthy = True\<rparr>
                ''item-service'' example_request)
           = Inr \<lparr>res_status = 200, res_body = JObj [(''success'', JBool True)]\<rparr>"
    by (simp add: axios_def net_ok_def validates_def proxyConfig_def)
  show ?thesis
    using o by (simp add: proxyRequest_def ic d a)
qed

text \<open>
  C1 (amended). A name whose failure count is 0 has three failures recorded in a row,
  the last at time \<open>t3\<close>. Then its breaker is open with count 3, and a request for the
  name that arrives no more than 30000 ms after \<open>t3\<close> is answered 503 at once: the
  table is unchanged and there is no effect at all (no registry lookup, no network
  call), whatever the registry holds and whatever the network would do.
\<close>

theorem C1_three_failures_open_and_short_circuit:
  assumes "failures_of bs serviceName = 0"
      and "now - t3 \<le> 30000"
  shows "let bs3 = recordFailure serviceName t3
                     (recordFailure serviceName t2 (recordFailure serviceName t1 bs))
         in open_of bs3 serviceName \<and> failures_of bs3 serviceName = 3 \<and>
            proxyRequest reg net now later serviceName req bs3 =
              (\<lparr>res_status = 503,
                res_body = JObj [(''success'', JBool False),
                                 (''message'', JStr (Servico @ serviceName @ '' temporariamente '' @ indisponivel)),
                                 (''service'', JStr serviceName)]\<rparr>,
               bs3, [])"
proof -
  define bs3 where
    "bs3 = recordFailure serviceName t3 (recordFailure serviceName t2 (recordFailure serviceName t1 bs))"
  have f: "failures_of bs3 serviceName = 3"
    using assms(1) by (simp add: bs3_def)
  have o: "open_of bs3 serviceName"
    using assms(1) by (simp add: bs3_def open_of_recordFailure)
  have l: "lastFailure_of bs3 serviceName = Some t3"
    by (simp add: bs3_def)
  have "isCircuitOpen serviceName now bs3 = (True, bs3)"
    using isCircuitOpen_within_cooldown [OF o l assms(2)] .
  then show ?thesis
    using f o unfolding bs3_def [symmetric] Let_def
    by (simp add: proxyRequest_def)
qed

theorem C1_three_failures_open_and_short_circuit_witness:
  "failures_of Map.empty ''item-service'' = 0 \<and> (30000::int) - 0 \<le> 30000 \<and>
   open_of three_failures ''item-service'' \<and> failures_of three_failures ''item-service'' = 3 \<and>
   proxyRequest example_registry net_ok 30000 30000 ''item-service'' example_request three_failures =
     (\<lparr>res_status = 503,
       res_body = JObj [(''success'', JBool False),
                        (''message'', JStr (Servico @ ''item-service'' @ '' temporariamente '' @ indisponivel)),
                        (''service'', JStr ''item-service'')]\<rparr>,
      three_failures, [])"
proof -
  have h1: "failures_of Map.empty ''item-service'' = 0"
    by (simp add: failures_of_def)
  have h2: "(30000::int) - 0 \<le> 30000"
    by simp
  show ?thesis
    using h1 h2
      C1_three_failures_open_and_short_circuit [OF h1 h2, of 0 0 example_registry net_ok 30000 example_request]
    unfolding three_failures_def Let_def by simp
qed

section \<open>The trial request after the cooldown\<close>

text \<open>
  C2 (as stated, refuted). Three failures of \<open>item-service\<close> were recorded at time 0, so
  its breaker is open with \<open>lastFailure = 0\<close>. A request arriving at time 30000, when
  30 seconds have elapsed, is still short-circuited: \<open>isCircuitOpen\<close> asks for more
  than 30000 ms.
\<close>

theorem C2_request_at_30_seconds_is_short_circuited:
  "open_of three_failures ''item-service'' \<and>
   lastFailure_of three_failures ''item-service'' = Some 0 \<and>
   (30000::int) - 0 \<ge> 30000 \<and>
   proxyRequest example_registry net_ok 30000 30000 ''item-service'' example_request three_failures =
     (\<lparr>res_status = 503,
       res_body = JObj [(''success'', JBool False),
                        (''message'', JStr (Servico @ ''item-service'' @ '' temporariamente '' @ indisponivel)),
                        (''service'', JStr ''item-service'')]\<rparr>,
      three_failures, [])"
proof -
  have o: "open_of three_failures ''item-service''"
    by (simp add: three_failures_def open_of_recordFailure)
  have l: "lastFailure_of three_failures ''item-service'' = Some 0"
    by (simp add: three_failures_def)
  have "isCircuitOpen ''item-service'' 30000 three_failures = (True, three_failures)"
    by (rule isCircuitOpen_within_cooldown [OF o l]) simp
  then show ?thesis
    using o l by (simp add: proxyRequest_def)
qed

text \<open>
  C2 (amended). The breaker of a registered service is open, has counted at least
  three failures (as every open breaker has, see \<open>table_ok\<close>), and more than 30000 ms
  have elapsed since \<open>lastFailure\<close>. Then the next request is not short-circuited: the
  service is looked up and the request is forwarded. If the forwarded call succeeds,
  its response is relayed and the breaker has count 0 and is neither open nor
  half-open. If it fails at time \<open>later\<close>, the breaker is open again with
  \<open>lastFailure = later\<close>, and from then on \<open>isCircuitOpen\<close> answers \<open>true\<close> exactly for
  the requests that arrive no more than 30000 ms after \<open>later\<close>.
\<close>

theorem C2_trial_after_cooldown:
  assumes "bs serviceName = Some b" and "isOpen b" and "3 \<le> failures b"
      and "now - num_of (lastFailure b) > 30000"
      and "discover reg serviceName = Inr service"
  shows "case proxyRequest reg net now later serviceName req bs of
           (r, bs', effects) \<Rightarrow>
             effects = [Discover serviceName, Request (proxyConfig service serviceName req)] \<and>
             (case axios net (proxyConfig service serviceName req) of
                Inr answer \<Rightarrow>
                  r = answer \<and> failures_of bs' serviceName = 0 \<and>
                  \<not> open_of bs' serviceName \<and> \<not> halfOpen_of bs' serviceName
              | Inl error \<Rightarrow>
                  open_of bs' serviceName \<and> lastFailure_of bs' serviceName = Some later \<and>
                  (\<forall>t. fst (isCircuitOpen serviceName t bs') = (t - later \<le> 30000)))"
proof -
  define bs1 where "bs1 = bs(serviceName \<mapsto> b\<lparr>isOpen := False, isHalfOpen := True\<rparr>)"
  have ic: "isCircuitOpen serviceName now bs = (False, bs1)"
    using assms(1,2,4) by (simp add: isCircuitOpen_def bs1_def)
  have f1: "failures_of bs1 serviceName = failures b"
    by (simp add: bs1_def failures_of_def)
  show ?thesis
  proof (cases "axios net (proxyConfig service serviceName req)")
    case (Inr answer)
    then show ?thesis
      by (simp add: proxyRequest_def ic assms(5))
  next
    case (Inl error)
    define bs2 where "bs2 = recordFailure serviceName later bs1"
    have o: "open_of bs2 serviceName"
      using assms(3) by (simp add: bs2_def open_of_recordFailure f1)
    have l: "lastFailure_of bs2 serviceName = Some later"
      by (simp add: bs2_def)
    have "fst (isCircuitOpen serviceName t bs2) = (t - later \<le> 30000)" for t
      using o l
      by (auto simp: isCircuitOpen_def open_of_def lastFailure_of_def num_of_def split: option.splits)
    then show ?thesis
      using Inl o l by (simp add: proxyRequest_def ic assms(5) bs2_def)
  qed
qed

theorem C2_trial_after_cooldown_witness:
  "three_failures ''item-service'' =
     Some \<lparr>failures = 3, isOpen = True, isHalfOpen = False, lastFailure = Some 0\<rparr> \<and>
   (30001::int) - num_of (Some 0) > 30000 \<and>
   discover example_registry ''item-service'' =
     Inr \<lparr>svc_url = ''http://localhost:3003'', svc_healthy = True\<rparr> \<and>
   (case proxyRequest example_registry net_refused 30001 30002 ''item-service'' example_request three_failures of
      (r, bs', effects) \<Rightarrow>
        effects = [Discover ''item-service'',
                   Request (proxyConfig \<lparr>svc_url = ''http://localhost:3003'', svc_healthy = True\<rparr>
                              ''item-service'' example_request)] \<and>
        open_of bs' ''item-service'' \<and> lastFailure_of bs' ''item-service'' = Some 30002 \<and>
        (\<forall>t. fst (isCircuitOpen ''item-service'' t bs') = (t - 30002 \<le> 30000))) \<and>
   (case proxyRequest example_registry net_ok 30001 30002 ''item-service'' example_request three_failures of
      (r, bs', effects) \<Rightarrow>
        r = \<lparr>res_status = 200, res_body = JObj [(''success'', JBool True)]\<rparr> \<and>
        failures_of bs' ''item-service'' = 0 \<and> \<not> open_of bs' ''item-service''
        \<and> \<not> halfOpen_of bs' ''item-service'')"
proof -
  let ?b = "\<lparr>failures = 3, isOpen = True, isHalfOpen = False, lastFailure = Some (0::int)\<rparr>"
  let ?s = "\<lparr>svc_url = ''http://localhost:3003'', svc_healthy = True\<rparr>"
  have h1: "three_failures ''item-service'' = Some ?b"
    by (simp add: three_failures_def recordFailure_def new_breaker_def Let_def)
  have h2: "isOpen ?b" and h3: "3 \<le> failures ?b"
    by simp_all
  have h4: "(30001::int) - num_of (lastFailure ?b) > 30000"
    by (simp add: num_of_def)
  have h5: "discover example_registry ''item-service'' = Inr ?s"
    by (simp add: discover_def example_registry_def)
  have a1: "axios net_refused (proxyConfig ?s ''item-service'' example_request) =
              Inl \<lparr>err_code = Some ''ECONNREFUSED'',
                   err_message = ''connect ECONNREFUSED 127.0.0.1:3003'', err_response = None\<rparr>"
    by (simp add: axios_def net_refused_def)
  have a2: "axios net_ok (proxyConfig ?s ''item-service'' example_request) =
              Inr \<lparr>res_status = 200, res_body = JObj [(''success'', JBool True)]\<rparr>"
    by (simp add: axios_def net_ok_def validates_def proxyConfig_def)
  show ?thesis
    using h1 h4 h5
      C2_trial_after_cooldown [where bs = three_failures and serviceName = "''item-service''"
        and net = net_refused and later = 30002 and req = example_request, OF h1 h2 h3 h4 h5]
      C2_trial_after_cooldown [where bs = three_failures and serviceName = "''item-service''"
        and net = net_ok and later = 30002 and req = example_request, OF h1 h2 h3 h4 h5]
    by (simp add: a1 a2 num_of_def split: prod.splits)
qed

section \<open>A service that is not registered\<close>

lemma three_failures_entry:
  "three_failures ''item-service'' =
     Some \<lparr>failures = 3, isOpen = True, isHalfOpen = False, lastFailure = Some 0\<rparr>"
  by (simp add: three_failures_def recordFailure_def new_breaker_def Let_def)

text \<open>
  C3 (as stated, refuted). \<open>item-service\<close> has no registry entry, \<open>user-service\<close> has
  one, and the breaker of \<open>item-service\<close> was opened at time 0. A request at time 1000
  gets the breaker's 503, which names the service but holds no list of the known
  services: the registry is not read at all.
\<close>

theorem C3_open_breaker_answer_has_no_service_list:
  "map_of registry_without_items ''item-service'' = None \<and>
   proxyRequest registry_without_items net_ok 1000 1000 ''item-service'' example_request three_failures =
     (\<lparr>res_status = 503,
       res_body = JObj [(''success'', JBool False),
                        (''message'', JStr (Servico @ ''item-service'' @ '' temporariamente '' @ indisponivel)),
                        (''service'', JStr ''item-service'')]\<rparr>,
      three_failures, []) \<and>
   get_prop (res_body (fst (proxyRequest registry_without_items net_ok 1000 1000 ''item-service''
                              example_request three_failures))) ''availableServices'' = Some JUndefined"
proof -
  have ic: "isCircuitOpen ''item-service'' 1000 three_failures = (True, three_failures)"
    by (simp add: isCircuitOpen_def three_failures_entry num_of_def)
  show ?thesis
    by (simp add: proxyRequest_def ic registry_without_items_def)
qed

text \<open>
  C3 (amended). For a service name without registry entry, \<open>proxyRequest\<close> answers 503
  with \<open>success: false\<close> and \<open>service\<close> the name, and none of its effects is a network
  call. When the breaker of the name lets the request through, the answer lists the
  names the registry knows; when the breaker is open, the answer is the breaker's
  (without such a list) and nothing is read or called.
\<close>

theorem C3_unregistered_service_503_without_network_call:
  assumes "map_of reg serviceName = None"
  shows "case proxyRequest reg net now later serviceName req bs of
           (r, bs', effects) \<Rightarrow>
             res_status r = 503 \<and>
             get_prop (res_body r) ''success'' = Some (JBool False) \<and>
             get_prop (res_body r) ''service'' = Some (JStr serviceName) \<and>
             list_all (\<lambda>e. is_network_call e = False) effects \<and>
             (if fst (isCircuitOpen serviceName now bs)
              then get_prop (res_body r) ''availableServices'' = Some JUndefined \<and> effects = []
              else get_prop (res_body r) ''availableServices'' = Some (JArr (map JStr (keys reg))))"
proof -
  obtain ans bs1 where ic: "isCircuitOpen serviceName now bs = (ans, bs1)"
    by (cases "isCircuitOpen serviceName now bs")
  have d: "discover reg serviceName = Inl (serviceNotFoundError serviceName)"
    using assms by (simp add: discover_def)
  show ?thesis
    by (cases ans) (simp_all add: proxyRequest_def ic d)
qed

theorem C3_unregistered_service_503_without_network_call_witness:
  "map_of registry_without_items ''item-service'' = None \<and>
   (case proxyRequest registry_without_items net_ok 0 0 ''item-service'' example_request Map.empty of
      (r, bs', effects) \<Rightarrow>
        res_status r = 503 \<and>
        get_prop (res_body r) ''success'' = Some (JBool False) \<and>
        get_prop (res_body r) ''service'' = Some (JStr ''item-service'') \<and>
        list_all (\<lambda>e. is_network_call e = False) effects \<and>
        get_prop (res_body r) ''availableServices'' = Some (JArr [JStr ''user-service'']))"
proof -
  have h: "map_of registry_without_items ''item-service'' = None"
    by (simp add: registry_without_items_def)
  have ic: "fst (isCircuitOpen ''item-service'' 0 Map.empty) = False"
    by (simp add: isCircuitOpen_def)
  have k: "keys registry_without_items = [''user-service'']"
    by (simp add: keys_def registry_without_items_def)
  show ?thesis
    using h C3_unregistered_service_503_without_network_call
            [where net = net_ok and now = 0 and later = 0 and req = example_request
               and bs = Map.empty, OF h]
    by (simp add: ic k split: prod.splits)
qed

section \<open>Outcome of a forwarded request\<close>


lemma settle_final: "settle config (final outcome) = settle config outcome"
  by (induction outcome) simp_all

lemma axios_final: "axios net config = settle config (final (net config))"
  by (simp add: axios_def settle_final)

lemma digits_10000: "digits 10000 = ''10000''"
  by (simp add: digits.simps)

lemma proxyRequest_answered:
  assumes "isCircuitOpen serviceName now bs = (False, bs1)"
      and "discover reg serviceName = Inr service"
      and "final (net (proxyConfig service serviceName req)) = Answered status body"
  shows "proxyRequest reg net now later serviceName req bs =
           (\<lparr>res_status = status, res_body = body\<rparr>,
            if status < 500 then resetCircuitBreaker serviceName bs1
            else recordFailure serviceName later bs1,
            [Discover serviceName, Request (proxyConfig service serviceName req)])"
proof -
  have v: "validates (proxyConfig service serviceName req) status = (status < 500)"
    by (simp add: validates_def proxyConfig_def)
  show ?thesis
  proof (cases "status < 500")
    case True
    then have "axios net (proxyConfig service serviceName req) =
                 Inr \<lparr>res_status = status, res_body = body\<rparr>"
      using assms(3) v by (simp add: axios_final)
    then show ?thesis
      using True by (simp add: proxyRequest_def assms(1,2))
  next
    case False
    define c where "c = (if status div 100 = 4 then Some ''ERR_BAD_REQUEST''
                         else if status div 100 = 5 then Some ''ERR_BAD_RESPONSE'' else None)"
    have c: "c \<noteq> Some ''ECONNREFUSED''" "c \<noteq> Some ''ETIMEDOUT''"
      by (simp_all add: c_def)
    have a: "axios net (proxyConfig service serviceName req) =
               Inl \<lparr>err_code = c, err_message = ''Request failed with status code '' @ digits status,
                    err_response = Some \<lparr>res_status = status, res_body = body\<rparr>\<rparr>"
      using assms(3) v False by (simp add: axios_final c_def)
    have "proxyErrorResponse serviceName
            \<lparr>err_code = c, err_message = ''Request failed with status code '' @ digits status,
             err_response = Some \<lparr>res_status = status, res_body = body\<rparr>\<rparr>
          = \<lparr>res_status = status, res_body = body\<rparr>"
      using c by (simp add: proxyErrorResponse_def)
    then show ?thesis
      using False by (simp add: proxyRequest_def assms(1,2) a)
  qed
qed

text \<open>
  A forwarded call that fails below HTTP with code \<open>ECONNREFUSED\<close> or \<open>ETIMEDOUT\<close>,
  the two codes that the \<open>catch\<close> block tests: the failure is recorded and the
  answer is 503 with the service name and the code.
\<close>

lemma proxyRequest_refused_or_ETIMEDOUT:
  assumes "fst (isCircuitOpen serviceName now bs) = False"
      and "discover reg serviceName = Inr service"
      and "final (net (proxyConfig service serviceName req)) = NetError (Some code) msg"
      and "code = ''ECONNREFUSED'' \<or> code = ''ETIMEDOUT''"
  shows "proxyRequest reg net now later serviceName req bs =
           (\<lparr>res_status = 503,
             res_body = JObj [(''success'', JBool False),
                              (''message'', JStr (Servico @ serviceName @ '' '' @ indisponivel)),
                              (''service'', JStr serviceName),
                              (''error'', JStr code)]\<rparr>,
            recordFailure serviceName later (snd (isCircuitOpen serviceName now bs)),
            [Discover serviceName, Request (proxyConfig service serviceName req)])"
proof -
  obtain bs1 where ic: "isCircuitOpen serviceName now bs = (False, bs1)"
    using assms(1) by (cases "isCircuitOpen serviceName now bs") simp
  have a: "axios net (proxyConfig service serviceName req) =
             Inl \<lparr>err_code = Some code, err_message = msg, err_response = None\<rparr>"
    using assms(3) by (simp add: axios_final)
  have r: "proxyErrorResponse serviceName \<lparr>err_code = Some code, err_message = msg, err_response = None\<rparr> =
             \<lparr>res_status = 503,
              res_body = JObj [(''success'', JBool False),
                               (''message'', JStr (Servico @ serviceName @ '' '' @ indisponivel)),
                               (''service'', JStr serviceName),
                               (''error'', JStr code)]\<rparr>"
    using assms(4) by (auto simp: proxyErrorResponse_def)
  show ?thesis
    by (simp add: proxyRequest_def ic assms(2) a r)
qed

text \<open>
  A forwarded call that gets no answer within the 10000 ms that \<open>proxyRequest\<close>
  configures: the client rejects with code \<open>ECONNABORTED\<close>, which the \<open>catch\<close> block
  does not test for. The failure is recorded; the answer is the 500 of the last
  branch, with \<open>api-gateway\<close> as the service.
\<close>

lemma proxyRequest_no_answer:
  assumes "fst (isCircuitOpen serviceName now bs) = False"
      and "discover reg serviceName = Inr service"
      and "final (net (proxyConfig service serviceName req)) = NoAnswer"
  shows "proxyRequest reg net now later serviceName req bs =
           (\<lparr>res_status = 500,
             res_body = JObj [(''success'', JBool False),
                              (''message'', JStr ''Erro interno do gateway''),
                              (''service'', JStr ''api-gateway''),
                              (''error'', JStr ''timeout of 10000ms exceeded'')]\<rparr>,
            recordFailure serviceName later (snd (isCircuitOpen serviceName now bs)),
            [Discover serviceName, Request (proxyConfig service serviceName req)])"
proof -
  obtain bs1 where ic: "isCircuitOpen serviceName now bs = (False, bs1)"
    using assms(1) by (cases "isCircuitOpen serviceName now bs") simp
  have t: "cfg_timeout (proxyConfig service serviceName req) = 10000"
    by (simp add: proxyConfig_def)
  have a: "axios net (proxyConfig service serviceName req) =
             Inl \<lparr>err_code = Some ''ECONNABORTED'', err_message = ''timeout of 10000ms exceeded'',
                  err_response = None\<rparr>"
    using assms(3) by (simp add: axios_final t digits_10000)
  show ?thesis
    by (simp add: proxyRequest_def ic assms(2) a proxyErrorResponse_def)
qed

text \<open>
  C7 (the code departs from the claim). A request for the registered
  \<open>item-service\<close> is forwarded and the downstream never answers: the forwarded request
  fails by timeout. The failure is recorded for \<open>item-service\<close>, but the answer is
  not a 503 that carries the service name and the failure kind: it is 500, its
  \<open>service\<close> is \<open>api-gateway\<close> and its message is that of an internal error of the
  gateway.
\<close>

theorem C7_gateway_timeout_is_answered_500:
  "proxyRequest example_registry net_silent 0 10000 ''item-service'' example_request Map.empty =
     (\<lparr>res_status = 500,
       res_body = JObj [(''success'', JBool False),
                        (''message'', JStr ''Erro interno do gateway''),
                        (''service'', JStr ''api-gateway''),
                        (''error'', JStr ''timeout of 10000ms exceeded'')]\<rparr>,
      recordFailure ''item-service'' 10000 Map.empty,
      [Discover ''item-service'',
       Request (proxyConfig \<lparr>svc_url = ''http://localhost:3003'', svc_healthy = True\<rparr>
                  ''item-service'' example_request)])"
proof -
  let ?s = "\<lparr>svc_url = ''http://localhost:3003'', svc_healthy = True\<rparr>"
  have h1: "fst (isCircuitOpen ''item-service'' 0 Map.empty) = False"
    by (simp add: isCircuitOpen_def)
  have h2: "discover example_registry ''item-service'' = Inr ?s"
    by (simp add: discover_def example_registry_def)
  have h3: "final (net_silent (proxyConfig ?s ''item-service'' example_request)) = NoAnswer"
    by (simp add: net_silent_def)
  have s: "snd (isCircuitOpen ''item-service'' 0 Map.empty) = Map.empty"
    by (simp add: isCircuitOpen_def)
  show ?thesis
    using proxyRequest_no_answer
            [where bs = Map.empty and later = 10000 and net = net_silent and req = example_request,
             OF h1 h2 h3]
    by (simp add: s)
qed

text \<open>
  C8 (as stated, refuted). The downstream answers the forwarded request with a 302
  and a \<open>Location\<close>. The status is below 500, yet \<open>proxyRequest\<close> does not relay the
  302: the client has followed the redirect, and the gateway answers with the 200
  and the body that came from the new location.
\<close>

theorem C8_redirect_is_followed_not_relayed:
  "net_redirect (proxyConfig \<lparr>svc_url = ''http://localhost:3003'', svc_healthy = True\<rparr>
                   ''item-service'' example_request) =
     Redirected 302 ''http://localhost:3003/items/42/'' (Answered 200 (JObj [(''success'', JBool True)])) \<and>
   fst (proxyRequest example_registry net_redirect 0 5 ''item-service'' example_request Map.empty) =
     \<lparr>res_status = 200, res_body = JObj [(''success'', JBool True)]\<rparr>"
proof -
  let ?s = "\<lparr>svc_url = ''http://localhost:3003'', svc_healthy = True\<rparr>"
  have ic: "isCircuitOpen ''item-service'' 0 Map.empty = (False, Map.empty)"
    by (simp add: isCircuitOpen_def)
  have d: "discover example_registry ''item-service'' = Inr ?s"
    by (simp add: discover_def example_registry_def)
  have f: "final (net_redirect (proxyConfig ?s ''item-service'' example_request)) =
             Answered 200 (JObj [(''success'', JBool True)])"
    by (simp add: net_redirect_def)
  show ?thesis
    using proxyRequest_answered [where net = net_redirect and req = example_request and later = 5,
                                 OF ic d f]
    by (simp add: net_redirect_def)
qed

text \<open>
  C8 (amended). A request is forwarded and the client delivers a response with a
  status and a body: the downstream's answer or, when the downstream redirected, the
  answer at the end of the redirects. The answer of \<open>proxyRequest\<close> has that status
  and that body, the value the client parsed. If the status is below 500 the
  breaker of the service is reset (count 0, neither open nor half-open); if it is
  500 or more a failure is recorded for the service (count one higher,
  \<open>lastFailure\<close> the time of the failure).
\<close>

theorem C8_delivered_response_is_relayed:
  assumes "fst (isCircuitOpen serviceName now bs) = False"
      and "discover reg serviceName = Inr service"
      and "final (net (proxyConfig service serviceName req)) = Answered status body"
  shows "case proxyRequest reg net now later serviceName req bs of
           (r, bs', effects) \<Rightarrow>
             r = \<lparr>res_status = status, res_body = body\<rparr> \<and>
             (if status < 500
              then bs' = resetCircuitBreaker serviceName (snd (isCircuitOpen serviceName now bs)) \<and>
                   failures_of bs' serviceName = 0 \<and>
                   \<not> open_of bs' serviceName \<and> \<not> halfOpen_of bs' serviceName
              else bs' = recordFailure serviceName later (snd (isCircuitOpen serviceName now bs)) \<and>
                   failures_of bs' serviceName = failures_of bs serviceName + 1 \<and>
                   lastFailure_of bs' serviceName = Some later)"
proof -
  obtain bs1 where ic: "isCircuitOpen serviceName now bs = (False, bs1)"
    using assms(1) by (cases "isCircuitOpen serviceName now bs") simp
  have f: "failures_of bs1 serviceName = failures_of bs serviceName"
    using failures_of_isCircuitOpen [of serviceName now bs] ic by simp
  show ?thesis
    using proxyRequest_answered [where net = net and req = req and later = later, OF ic assms(2,3)]
    by (simp add: ic f)
qed

theorem C8_delivered_response_is_relayed_witness:
  "fst (isCircuitOpen ''item-service'' 0 Map.empty) = False \<and>
   discover example_registry ''item-service'' =
     Inr \<lparr>svc_url = ''http://localhost:3003'', svc_healthy = True\<rparr> \<and>
   (case proxyRequest example_registry net_ok 0 5 ''item-service'' example_request Map.empty of
      (r, bs', effects) \<Rightarrow>
        r = \<lparr>res_status = 200, res_body = JObj [(''success'', JBool True)]\<rparr> \<and>
        failures_of bs' ''item-service'' = 0 \<and> \<not> open_of bs' ''item-service'') \<and>
   (case proxyRequest example_registry net_unhealthy 0 5 ''item-service'' example_request Map.empty of
      (r, bs', effects) \<Rightarrow>
        r = \<lparr>res_status = 500, res_body = JObj [(''success'', JBool False)]\<rparr> \<and>
        failures_of bs' ''item-service'' = 1 \<and> lastFailure_of bs' ''item-service'' = Some 5) \<and>
   (case proxyRequest example_registry net_redirect 0 5 ''item-service'' example_request Map.empty of
      (r, bs', effects) \<Rightarrow>
        r = \<lparr>res_status = 200, res_body = JObj [(''success'', JBool True)]\<rparr> \<and>
        failures_of bs' ''item-service'' = 0 \<and> \<not> open_of bs' ''item-service'')"
proof -
  let ?s = "\<lparr>svc_url = ''http://localhost:3003'', svc_healthy = True\<rparr>"
  have h1: "fst (isCircuitOpen ''item-service'' 0 Map.empty) = False"
    by (simp add: isCircuitOpen_def)
  have h2: "discover example_registry ''item-service'' = Inr ?s"
    by (simp add: discover_def example_registry_def)
  have h3: "final (net_ok (proxyConfig ?s ''item-service'' example_request)) =
              Answered 200 (JObj [(''success'', JBool True)])"
    by (simp add: net_ok_def)
  have h4: "final (net_unhealthy (proxyConfig ?s ''item-service'' example_request)) =
              Answered 500 (JObj [(''success'', JBool False)])"
    by (simp add: net_unhealthy_def)
  have h5: "final (net_redirect (proxyConfig ?s ''item-service'' example_request)) =
              Answered 200 (JObj [(''success'', JBool True)])"
    by (simp add: net_redirect_def)
  have z: "failures_of Map.empty ''item-service'' = 0"
    by (simp add: failures_of_def)
  show ?thesis
    using h1 h2
      C8_delivered_response_is_relayed
        [where bs = Map.empty and later = 5 and net = net_ok and req = example_request, OF h1 h2 h3]
      C8_delivered_response_is_relayed
        [where bs = Map.empty and later = 5 and net = net_unhealthy and req = example_request, OF h1 h2 h4]
      C8_delivered_response_is_relayed
        [where bs = Map.empty and later = 5 and net = net_redirect and req = example_request, OF h1 h2 h5]
    by (simp add: z split: prod.splits)
qed

section \<open>The rewritten path\<close>

lemma startsWith_trans:
  assumes "startsWith s pat" and "startsWith pat q"
  shows "startsWith s q"
proof -
  have le: "length q \<le> length pat"
    using assms(2) unfolding startsWith_def
    by (metis length_take min.cobounded1)
  have "take (length q) s = take (length q) (take (length pat) s)"
    using le by (simp add: min_def)
  then show ?thesis
    using assms unfolding startsWith_def by simp
qed

lemma startsWith_contains: "startsWith s q \<Longrightarrow> contains_str s q"
  by (cases s) (auto simp: startsWith_def)

lemma replace_str_absent:
  assumes "\<not> contains_str s q" and "q \<noteq> []" and "startsWith pat q"
  shows "replace_str s pat rep = s"
  using assms(1)
proof (induction s)
  case Nil
  have "pat \<noteq> []"
    using assms(2,3) by (auto simp: startsWith_def)
  then show ?case by simp
next
  case (Cons c cs)
  have "\<not> startsWith (c # cs) pat"
    using Cons.prems startsWith_trans [OF _ assms(3)] by auto
  then show ?case
    using Cons by simp
qed

text \<open>
  The last two steps of each branch: a leading slash is ensured, then \<open>/\<close> and the
  empty path are replaced by the collection root.
\<close>

lemma finish_shape:
  assumes "r \<noteq> []" and "startsWith r ''/''" and "r \<noteq> ''/''"
  shows "(if (if \<not> startsWith t0 ''/'' then ''/'' @ t0 else t0) = ''/'' \<or>
             (if \<not> startsWith t0 ''/'' then ''/'' @ t0 else t0) = []
          then r else (if \<not> startsWith t0 ''/'' then ''/'' @ t0 else t0))
         \<in> {x. x \<noteq> [] \<and> startsWith x ''/'' \<and> x \<noteq> ''/''}"
  using assms by (auto simp: startsWith_def)

lemma targetPath_shape:
  assumes "serviceName = ''user-service'' \<or> serviceName = ''item-service'' \<or> serviceName = ''list-service''"
  shows "targetPath serviceName p \<noteq> [] \<and> startsWith (targetPath serviceName p) ''/'' \<and>
         targetPath serviceName p \<noteq> ''/''"
proof -
  have u: "''/users'' \<noteq> []" "startsWith ''/users'' ''/''" "''/users'' \<noteq> ''/''"
    and i: "''/items'' \<noteq> []" "startsWith ''/items'' ''/''" "''/items'' \<noteq> ''/''"
    and l: "''/lists'' \<noteq> []" "startsWith ''/lists'' ''/''" "''/lists'' \<noteq> ''/''"
    by (simp_all add: startsWith_def)
  from assms consider "serviceName = ''user-service''" | "serviceName = ''item-service''"
    | "serviceName = ''list-service''" by blast
  then have "targetPath serviceName p \<in> {x. x \<noteq> [] \<and> startsWith x ''/'' \<and> x \<noteq> ''/''}"
  proof cases
    case 1
    show ?thesis
      unfolding targetPath_def Let_def 1
      using finish_shape [OF u] by (simp split del: if_split)
  next
    case 2
    show ?thesis
      unfolding targetPath_def Let_def 2
      using finish_shape [OF i] by (simp split del: if_split)
  next
    case 3
    show ?thesis
      unfolding targetPath_def Let_def 3
      using finish_shape [OF l] by (simp split del: if_split)
  qed
  then show ?thesis by simp
qed

lemma targetPath_fixed:
  assumes "serviceName = ''user-service'' \<or> serviceName = ''item-service'' \<or> serviceName = ''list-service''"
      and "startsWith t ''/''" and "t \<noteq> ''/''" and "\<not> contains_str t ''/api/''"
  shows "targetPath serviceName t = t"
proof -
  have r: "replace_str t pat rep = t" if "startsWith pat ''/api/''" for pat rep
    using replace_str_absent [OF assms(4) _ that] by simp
  have n: "\<not> startsWith t pat" if "startsWith pat ''/api/''" for pat
    using assms(4) startsWith_contains startsWith_trans [OF _ that] by blast
  have p: "startsWith ''/api/auth'' ''/api/''" "startsWith ''/api/users'' ''/api/''"
    "startsWith ''/api/categories'' ''/api/''" "startsWith ''/api/search/items'' ''/api/''"
    "startsWith ''/api/items'' ''/api/''" "startsWith ''/api/lists'' ''/api/''"
    by (simp_all add: startsWith_def)
  have e: "t \<noteq> []"
    using assms(2) by (auto simp: startsWith_def)
  show ?thesis
    using assms(1,2,3) e unfolding targetPath_def Let_def
    by (auto simp: r [OF p(1)] r [OF p(2)] r [OF p(3)] r [OF p(4)] r [OF p(5)] r [OF p(6)]
                   n [OF p(1)] n [OF p(3)] n [OF p(4)])
qed

text \<open>
  C4 (as stated, refuted). \<open>/api/items/api/items\<close> is a public path of the
  \<open>/api/items\<close> route. It is rewritten to \<open>/items/api/items\<close>, and rewriting that
  path again gives \<open>/items/items\<close>: \<open>replace\<close> finds the public prefix wherever it
  first occurs, so the rewrite is not idempotent.
\<close>

theorem C4_rewrite_twice_differs:
  "targetPath ''item-service'' ''/api/items/api/items'' = ''/items/api/items'' \<and>
   targetPath ''item-service'' ''/items/api/items'' = ''/items/items''"
  by (simp add: targetPath_def startsWith_def)

text \<open>
  C4 (amended). For each of the three services of the proxy routes and every
  request target, the rewritten path is not empty, starts with \<open>/\<close> and is not \<open>/\<close>
  alone; rewriting it again leaves it unchanged whenever it holds no occurrence of
  \<open>/api/\<close>. On a public path the public prefix is replaced by the service's root and
  the rest is kept, so a bare collection root (\<open>rest\<close> empty) goes to the
  collection root of the service.
\<close>

theorem C4_targetPath_total_nonempty_and_stable:
  assumes "serviceName = ''user-service'' \<or> serviceName = ''item-service'' \<or> serviceName = ''list-service''"
  shows "targetPath serviceName p \<noteq> [] \<and>
         startsWith (targetPath serviceName p) ''/'' \<and>
         targetPath serviceName p \<noteq> ''/'' \<and>
         (\<not> contains_str (targetPath serviceName p) ''/api/'' \<longrightarrow>
            targetPath serviceName (targetPath serviceName p) = targetPath serviceName p) \<and>
         targetPath ''user-service'' (''/api/auth'' @ rest) = ''/auth'' @ rest \<and>
         targetPath ''user-service'' (''/api/users'' @ rest) = ''/users'' @ rest \<and>
         targetPath ''item-service'' (''/api/items'' @ rest) = ''/items'' @ rest \<and>
         targetPath ''item-service'' (''/api/categories'' @ rest) = ''/categories'' @ rest \<and>
         targetPath ''item-service'' (''/api/search/items'' @ rest) = ''/search'' @ rest \<and>
         targetPath ''list-service'' (''/api/lists'' @ rest) = ''/lists'' @ rest"
proof -
  note s = targetPath_shape [OF assms, of p]
  have i: "targetPath serviceName (targetPath serviceName p) = targetPath serviceName p"
    if "\<not> contains_str (targetPath serviceName p) ''/api/''"
    using targetPath_fixed [OF assms _ _ that] s by simp
  have e1: "targetPath ''user-service'' (''/api/auth'' @ rest) = ''/auth'' @ rest"
    by (simp add: targetPath_def startsWith_def)
  have e2: "targetPath ''user-service'' (''/api/users'' @ rest) = ''/users'' @ rest"
    by (simp add: targetPath_def startsWith_def)
  have e3: "targetPath ''item-service'' (''/api/items'' @ rest) = ''/items'' @ rest"
    by (simp add: targetPath_def startsWith_def)
  have e4: "targetPath ''item-service'' (''/api/categories'' @ rest) = ''/categories'' @ rest"
    by (simp add: targetPath_def startsWith_def)
  have e5: "targetPath ''item-service'' (''/api/search/items'' @ rest) = ''/search'' @ rest"
    by (simp add: targetPath_def startsWith_def)
  have e6: "targetPath ''list-service'' (''/api/lists'' @ rest) = ''/lists'' @ rest"
    by (simp add: targetPath_def startsWith_def)
  show ?thesis
    using s i e1 e2 e3 e4 e5 e6 by simp
qed

theorem C4_targetPath_total_nonempty_and_stable_witness:
  "(''item-service'' = ''user-service'' \<or> ''item-service'' = ''item-service''
      \<or> ''item-service'' = ''list-service'') \<and>
   targetPath ''item-service'' ''/api/items/42'' = ''/items/42'' \<and>
   \<not> contains_str (targetPath ''item-service'' ''/api/items/42'') ''/api/'' \<and>
   targetPath ''item-service'' (targetPath ''item-service'' ''/api/items/42'') = ''/items/42'' \<and>
   targetPath ''item-service'' ''/api/items'' = ''/items''"
proof -
  have h: "''item-service'' = ''user-service'' \<or> ''item-service'' = ''item-service''
      \<or> ''item-service'' = ''list-service''"
    by simp
  have t: "targetPath ''item-service'' ''/api/items/42'' = ''/items/42''"
    by (simp add: targetPath_def startsWith_def)
  have c: "\<not> contains_str ''/items/42'' ''/api/''"
    by (simp add: startsWith_def)
  show ?thesis
    using C4_targetPath_total_nonempty_and_stable [OF h, of "''/api/items/42''" "[]"]
    by (simp add: t c startsWith_def)
qed

section \<open>Answers of the aggregated endpoints\<close>

lemma callService_effects:
  "snd (callService reg net serviceName path method authHeader params) \<noteq> []"
  by (simp add: callService_def Let_def split: sum.splits)

lemma searchEntry_None: "(searchEntry settled = None) = fulfilled_nullish settled"
proof (cases settled)
  case (Inl e)
  then show ?thesis by (simp add: searchEntry_def fulfilled_nullish_def)
next
  case (Inr v)
  then show ?thesis
    by (cases v) (simp_all add: searchEntry_def fulfilled_nullish_def Let_def split: option.splits)
qed

lemma dashboardEntry_None: "(dashboardEntry settled = None) = fulfilled_nullish settled"
proof (cases settled)
  case (Inl e)
  then show ?thesis by (simp add: dashboardEntry_def fulfilled_nullish_def)
next
  case (Inr v)
  then show ?thesis
    by (cases v) (simp_all add: dashboardEntry_def fulfilled_nullish_def split: option.splits)
qed

lemma searchEntry_outcome: "searchEntry settled = Some entry \<Longrightarrow> search_outcome entry settled"
  by (cases settled)
     (auto simp: searchEntry_def search_outcome_def Let_def split: option.splits)

lemma dashboardEntry_outcome: "dashboardEntry settled = Some entry \<Longrightarrow> dashboard_outcome entry settled"
  by (cases settled)
     (auto simp: dashboardEntry_def dashboard_outcome_def split: option.splits)

text \<open>\<open>globalSearch\<close> with a search term, without and with a credential.\<close>

lemma globalSearch_anonymous:
  assumes "truthy (query_q req)" and "\<not> present (authorization req)"
  shows "globalSearch reg net req =
           (case searchEntry (fst (callService reg net ''item-service'' ''/search'' ''GET'' None
                                     [(''q'', query_q req)])) of
              None \<Rightarrow> searchError
            | Some itemsE \<Rightarrow>
                \<lparr>res_status = 200,
                 res_body = JObj [(''success'', JBool True),
                   (''data'', JObj [(''query'', query_q req), (''items'', itemsE)])]\<rparr>,
            snd (callService reg net ''item-service'' ''/search'' ''GET'' None [(''q'', query_q req)]))"
  using assms
  by (simp add: globalSearch_def Let_def case_prod_beta split: option.splits)

lemma globalSearch_authenticated:
  assumes "truthy (query_q req)" and "present (authorization req)"
  shows "globalSearch reg net req =
           (case (searchEntry (fst (callService reg net ''item-service'' ''/search'' ''GET'' None
                                      [(''q'', query_q req)])),
                  searchEntry (fst (callService reg net ''list-service'' ''/search'' ''GET''
                                      (authorization req) [(''q'', query_q req), (''limit'', JNum 10)]))) of
              (Some itemsE, Some listsE) \<Rightarrow>
                \<lparr>res_status = 200,
                 res_body = JObj [(''success'', JBool True),
                   (''data'', JObj [(''query'', query_q req), (''items'', itemsE), (''lists'', listsE)])]\<rparr>
            | _ \<Rightarrow> searchError,
            snd (callService reg net ''item-service'' ''/search'' ''GET'' None [(''q'', query_q req)]) @
            snd (callService reg net ''list-service'' ''/search'' ''GET''
                   (authorization req) [(''q'', query_q req), (''limit'', JNum 10)]))"
  using assms
  by (simp add: globalSearch_def Let_def case_prod_beta split: option.splits)

text \<open>
  C10 (as stated, refuted). \<open>GET /api/search?q=&q=\<close> has no non-empty \<open>q\<close>
  parameter, but the parsed \<open>q\<close> is the array \<open>['', '']\<close>, which is truthy: the
  request is not answered 400. The item search is called and the answer is 200.
\<close>

theorem C10_repeated_empty_q_is_searched:
  "query_q search_request_empty_qs = JArr [JStr [], JStr []] \<and>
   res_status (fst (globalSearch full_registry net_ok search_request_empty_qs)) = 200 \<and>
   snd (globalSearch full_registry net_ok search_request_empty_qs) =
     [Discover ''item-service'',
      Request (callConfig \<lparr>svc_url = ''http://localhost:3003'', svc_healthy = True\<rparr>
                 ''/search'' ''GET'' None [(''q'', JArr [JStr [], JStr []])])]"
proof -
  have q: "query_q search_request_empty_qs = JArr [JStr [], JStr []]"
    by (simp add: query_q_def search_request_empty_qs_def)
  have t: "truthy (query_q search_request_empty_qs)"
    by (simp add: q)
  have h: "\<not> present (authorization search_request_empty_qs)"
    by (simp add: authorization_def present_def search_request_empty_qs_def)
  have c: "callService full_registry net_ok ''item-service'' ''/search'' ''GET'' None
             [(''q'', JArr [JStr [], JStr []])] =
           (Inr (JObj [(''success'', JBool True)]),
            [Discover ''item-service'',
             Request (callConfig \<lparr>svc_url = ''http://localhost:3003'', svc_healthy = True\<rparr>
                        ''/search'' ''GET'' None [(''q'', JArr [JStr [], JStr []])])])"
    by (simp add: callService_def discover_def full_registry_def axios_def net_ok_def validates_def
          callConfig_def Let_def)
  show ?thesis
    by (simp add: globalSearch_anonymous [OF t h] q c searchEntry_def Let_def)
qed

text \<open>
  C10 (amended). A search request whose parsed \<open>q\<close> is missing or the empty string is
  answered 400 with \<open>success: false\<close> and has no effect: no registry lookup and no
  downstream call. Conversely \<open>globalSearch\<close> has effects (it starts the fan-out)
  exactly when the parsed \<open>q\<close> is truthy: a non-empty string, or an array or an
  object, whatever it holds.
\<close>

theorem C10_search_without_q_is_rejected_before_any_call:
  "(query_q req = JUndefined \<or> query_q req = JStr [] \<longrightarrow>
      globalSearch reg net req =
        (\<lparr>res_status = 400,
          res_body = JObj [(''success'', JBool False),
                           (''message'', JStr (''Par'' @ a_circ @ ''metro de busca \"q\" ''
                                               @ e_acute @ '' obrigat'' @ o_acute @ ''rio''))]\<rparr>,
         [])) \<and>
   ((snd (globalSearch reg net req) \<noteq> []) = truthy (query_q req))"
proof -
  have a: "globalSearch reg net req =
             (\<lparr>res_status = 400,
               res_body = JObj [(''success'', JBool False),
                                (''message'', JStr (''Par'' @ a_circ @ ''metro de busca \"q\" ''
                                                    @ e_acute @ '' obrigat'' @ o_acute @ ''rio''))]\<rparr>,
              [])"
    if "\<not> truthy (query_q req)"
    using that by (simp add: globalSearch_def Let_def)
  have b: "snd (globalSearch reg net req) \<noteq> []" if "truthy (query_q req)"
  proof (cases "present (authorization req)")
    case True
    show ?thesis
      by (simp add: globalSearch_authenticated [OF that True] callService_effects)
  next
    case False
    show ?thesis
      by (simp add: globalSearch_anonymous [OF that False] callService_effects)
  qed
  have c: "\<not> truthy (query_q req)" if "query_q req = JUndefined \<or> query_q req = JStr []"
    using that by auto
  show ?thesis
    using a b c by (cases "truthy (query_q req)") auto
qed

theorem C10_search_without_q_is_rejected_before_any_call_witness:
  "query_q search_request_without_q = JUndefined \<and>
   globalSearch full_registry net_ok search_request_without_q =
     (\<lparr>res_status = 400,
       res_body = JObj [(''success'', JBool False),
                        (''message'', JStr (''Par'' @ a_circ @ ''metro de busca \"q\" ''
                                            @ e_acute @ '' obrigat'' @ o_acute @ ''rio''))]\<rparr>,
      []) \<and>
   truthy (query_q search_request) \<and>
   snd (globalSearch full_registry net_ok search_request) \<noteq> []"
proof -
  have h: "query_q search_request_without_q = JUndefined"
    by (simp add: query_q_def search_request_without_q_def)
  have t: "truthy (query_q search_request)"
    by (simp add: query_q_def search_request_def)
  show ?thesis
    using h t
      C10_search_without_q_is_rejected_before_any_call [of search_request_without_q full_registry net_ok]
      C10_search_without_q_is_rejected_before_any_call [of search_request full_registry net_ok]
    by simp
qed

text \<open>
  C6 (as stated, refuted). A dashboard request without \<open>Authorization\<close> header is
  answered 401: the whole request fails, and no call is issued at all.
\<close>

theorem C6_dashboard_without_credential_is_401:
  "authorization dashboard_request_anonymous = None \<and>
   getDashboard full_registry net_ok ''2025-01-01T00:00:00.000Z'' dashboard_request_anonymous =
     (\<lparr>res_status = 401,
       res_body = JObj [(''success'', JBool False),
                        (''message'', JStr (''Token de autentica'' @ c_cedil @ a_tilde @ ''o obrigat'' @ o_acute
                                            @ ''rio para acessar o dashboard''))]\<rparr>,
      [])"
  by (simp add: getDashboard_def authorization_def present_def dashboard_request_anonymous_def Let_def)

text \<open>
  C6 (amended). Without a credential the dashboard answers 401 and issues no call.
  The global search (with a search term) issues the item search only; unless that
  call was fulfilled with \<open>null\<close> or \<open>undefined\<close>, the answer is 200 and its data has
  the keys \<open>query\<close> and \<open>items\<close> and no \<open>lists\<close> entry.
\<close>

theorem C6_without_credential:
  assumes "\<not> present (authorization req)"
  shows "getDashboard reg net timestamp req =
           (\<lparr>res_status = 401,
             res_body = JObj [(''success'', JBool False),
                              (''message'', JStr (''Token de autentica'' @ c_cedil @ a_tilde @ ''o obrigat''
                                                  @ o_acute @ ''rio para acessar o dashboard''))]\<rparr>,
            []) \<and>
         (truthy (query_q req) \<longrightarrow>
            (case globalSearch reg net req of
               (r, effects) \<Rightarrow>
                 effects = snd (callService reg net ''item-service'' ''/search'' ''GET'' None
                                  [(''q'', query_q req)]) \<and>
                 (if fulfilled_nullish (fst (callService reg net ''item-service'' ''/search'' ''GET'' None
                                               [(''q'', query_q req)]))
                  then r = searchError
                  else res_status r = 200 \<and>
                       get_prop (res_body r) ''success'' = Some (JBool True) \<and>
                       obj_keys (at_path (res_body r) [''data'']) = [''query'', ''items''] \<and>
                       at_path (res_body r) [''data'', ''lists''] = JUndefined)))"
proof -
  have d: "getDashboard reg net timestamp req =
             (\<lparr>res_status = 401,
               res_body = JObj [(''success'', JBool False),
                                (''message'', JStr (''Token de autentica'' @ c_cedil @ a_tilde @ ''o obrigat''
                                                    @ o_acute @ ''rio para acessar o dashboard''))]\<rparr>,
              [])"
    using assms by (simp add: getDashboard_def Let_def)
  have s: "case globalSearch reg net req of
             (r, effects) \<Rightarrow>
               effects = snd (callService reg net ''item-service'' ''/search'' ''GET'' None
                                [(''q'', query_q req)]) \<and>
               (if fulfilled_nullish (fst (callService reg net ''item-service'' ''/search'' ''GET'' None
                                             [(''q'', query_q req)]))
                then r = searchError
                else res_status r = 200 \<and>
                     get_prop (res_body r) ''success'' = Some (JBool True) \<and>
                     obj_keys (at_path (res_body r) [''data'']) = [''query'', ''items''] \<and>
                     at_path (res_body r) [''data'', ''lists''] = JUndefined)"
    if q: "truthy (query_q req)"
  proof (cases "searchEntry (fst (callService reg net ''item-service'' ''/search'' ''GET'' None
                                    [(''q'', query_q req)]))")
    case None
    then show ?thesis
      using searchEntry_None [of "fst (callService reg net ''item-service'' ''/search'' ''GET'' None
                                        [(''q'', query_q req)])"]
      by (simp add: globalSearch_anonymous [OF q assms])
  next
    case (Some itemsE)
    then show ?thesis
      using searchEntry_None [of "fst (callService reg net ''item-service'' ''/search'' ''GET'' None
                                        [(''q'', query_q req)])"]
      by (simp add: globalSearch_anonymous [OF q assms] get_prop_opt_def keys_def)
  qed
  show ?thesis
    using d s by blast
qed

theorem C6_without_credential_witness:
  "\<not> present (authorization search_request) \<and> truthy (query_q search_request) \<and>
   res_status (fst (getDashboard full_registry net_ok ''2025-01-01T00:00:00.000Z'' search_request)) = 401 \<and>
   (case globalSearch full_registry net_ok search_request of
      (r, effects) \<Rightarrow>
        effects = snd (callService full_registry net_ok ''item-service'' ''/search'' ''GET'' None
                         [(''q'', JStr ''leite'')]) \<and>
        res_status r = 200 \<and>
        obj_keys (at_path (res_body r) [''data'']) = [''query'', ''items''] \<and>
        at_path (res_body r) [''data'', ''lists''] = JUndefined)"
proof -
  have h: "\<not> present (authorization search_request)"
    by (simp add: authorization_def present_def search_request_def)
  have q: "query_q search_request = JStr ''leite''"
    by (simp add: query_q_def search_request_def)
  have c: "fst (callService full_registry net_ok ''item-service'' ''/search'' ''GET'' None
                  [(''q'', JStr ''leite'')]) = Inr (JObj [(''success'', JBool True)])"
    by (simp add: callService_def discover_def full_registry_def axios_def net_ok_def validates_def
          callConfig_def Let_def)
  show ?thesis
    using h C6_without_credential [OF h, of full_registry net_ok "''2025-01-01T00:00:00.000Z''"]
    by (simp add: q c fulfilled_nullish_def split: prod.splits)
qed



text \<open>\<open>getDashboard\<close> with a credential: the four calls and the fold of their outcomes.\<close>

lemma getDashboard_authenticated:
  assumes "present (authorization req)"
  shows "fst (getDashboard reg net timestamp req) =
           (case (dashboardEntry (fst (callService reg net ''user-service'' ''/users/profile'' ''GET''
                                         (authorization req) [])),
                  dashboardEntry (fst (callService reg net ''list-service'' ''/lists'' ''GET''
                                         (authorization req) [(''limit'', JNum 5)])),
                  dashboardEntry (fst (callService reg net ''item-service'' ''/items'' ''GET'' None
                                         [(''limit'', JNum 10)])),
                  dashboardEntry (fst (callService reg net ''item-service'' ''/categories'' ''GET'' None []))) of
              (Some profileE, Some listsE, Some itemsE, Some categoriesE) \<Rightarrow>
                \<lparr>res_status = 200,
                 res_body = JObj [(''success'', JBool True),
                   (''data'', JObj [(''timestamp'', JStr timestamp),
                      (''domain'', JStr ''Sistema de Lista de Compras''),
                      (''architecture'', JStr ''Microservices with NoSQL''),
                      (''database_approach'', JStr ''Database per Service''),
                      (''services_status'', listServices reg),
                      (''user_data'', JObj [(''profile'', profileE)]),
                      (''shopping_data'', JObj [(''lists'', listsE), (''items'', itemsE),
                                                (''categories'', categoriesE)])])]\<rparr>
            | _ \<Rightarrow>
                \<lparr>res_status = 500,
                 res_body = JObj [(''success'', JBool False),
                                  (''message'', JStr ''Erro ao agregar dados do dashboard'')]\<rparr>)"
  using assms
  by (simp add: getDashboard_def Let_def case_prod_beta split: option.splits)

text \<open>
  C5 (as stated, refuted). The item search fails (connection refused) on a global
  search without credential. The answer is a 200 whose \<open>items\<close> entry has
  \<open>available: false\<close> and the error message, but its payload is \<open>results: []\<close>, an
  empty array and not \<open>null\<close>, and it has no \<open>data\<close> key.
\<close>

theorem C5_failed_search_entry_has_empty_results:
  "fst (globalSearch full_registry net_refused search_request) =
     \<lparr>res_status = 200,
      res_body = JObj [(''success'', JBool True),
        (''data'', JObj [(''query'', JStr ''leite''),
           (''items'', JObj [(''available'', JBool False), (''results'', JArr []),
                             (''error'', JStr ''connect ECONNREFUSED 127.0.0.1:3003'')])])]\<rparr>"
proof -
  have q: "query_q search_request = JStr ''leite''"
    by (simp add: query_q_def search_request_def)
  have h: "\<not> present (authorization search_request)"
    by (simp add: authorization_def present_def search_request_def)
  have c: "fst (callService full_registry net_refused ''item-service'' ''/search'' ''GET'' None
                  [(''q'', JStr ''leite'')])
           = Inl \<lparr>err_code = Some ''ECONNREFUSED'',
                  err_message = ''connect ECONNREFUSED 127.0.0.1:3003'', err_response = None\<rparr>"
    by (simp add: callService_def discover_def full_registry_def axios_def net_refused_def Let_def)
  have t: "truthy (query_q search_request)"
    by (simp add: q)
  show ?thesis
    by (simp add: globalSearch_anonymous [OF t h] q c searchEntry_def)
qed

text \<open>
  C5 (amended). Dashboard, with a credential: unless one of the four calls was
  fulfilled with \<open>null\<close> or \<open>undefined\<close> (then the answer is 500), the answer is 200 with
  \<open>success: true\<close> and an entry for each of \<open>profile\<close>, \<open>lists\<close>, \<open>items\<close> and
  \<open>categories\<close>; the entry of a rejected call has \<open>available: false\<close>, the message of
  the failure as \<open>error\<close> and \<open>data: null\<close>. Global search, with a search term:
  likewise for \<open>items\<close> and, with a credential, \<open>lists\<close>; the entry of a rejected call
  has \<open>available: false\<close>, the message as \<open>error\<close> and \<open>results: []\<close>. A rejected call
  never makes the answer an error.
\<close>

theorem C5_aggregates_report_every_label:
  "(present (authorization req) \<longrightarrow>
      (let userResponse = fst (callService reg net ''user-service'' ''/users/profile'' ''GET''
                                 (authorization req) []);
           itemsResponse = fst (callService reg net ''item-service'' ''/items'' ''GET'' None
                                  [(''limit'', JNum 10)]);
           listsResponse = fst (callService reg net ''list-service'' ''/lists'' ''GET''
                                  (authorization req) [(''limit'', JNum 5)]);
           categoriesResponse = fst (callService reg net ''item-service'' ''/categories'' ''GET'' None []);
           r = fst (getDashboard reg net timestamp req)
       in if fulfilled_nullish userResponse \<or> fulfilled_nullish itemsResponse \<or>
             fulfilled_nullish listsResponse \<or> fulfilled_nullish categoriesResponse
          then res_status r = 500
          else res_status r = 200 \<and>
               get_prop (res_body r) ''success'' = Some (JBool True) \<and>
               dashboard_outcome (at_path (res_body r) [''data'', ''user_data'', ''profile'']) userResponse \<and>
               dashboard_outcome (at_path (res_body r) [''data'', ''shopping_data'', ''lists'']) listsResponse \<and>
               dashboard_outcome (at_path (res_body r) [''data'', ''shopping_data'', ''items'']) itemsResponse \<and>
               dashboard_outcome (at_path (res_body r) [''data'', ''shopping_data'', ''categories''])
                 categoriesResponse)) \<and>
   (truthy (query_q req) \<longrightarrow>
      (let itemResults = fst (callService reg net ''item-service'' ''/search'' ''GET'' None
                                [(''q'', query_q req)]);
           listResults = fst (callService reg net ''list-service'' ''/search'' ''GET''
                                (authorization req) [(''q'', query_q req), (''limit'', JNum 10)]);
           r = fst (globalSearch reg net req)
       in if present (authorization req)
          then (if fulfilled_nullish itemResults \<or> fulfilled_nullish listResults
                then res_status r = 500
                else res_status r = 200 \<and>
                     get_prop (res_body r) ''success'' = Some (JBool True) \<and>
                     search_outcome (at_path (res_body r) [''data'', ''items'']) itemResults \<and>
                     search_outcome (at_path (res_body r) [''data'', ''lists'']) listResults)
          else (if fulfilled_nullish itemResults
                then res_status r = 500
                else res_status r = 200 \<and>
                     get_prop (res_body r) ''success'' = Some (JBool True) \<and>
                     search_outcome (at_path (res_body r) [''data'', ''items'']) itemResults)))"
proof -
  define userResponse where
    "userResponse = fst (callService reg net ''user-service'' ''/users/profile'' ''GET'' (authorization req) [])"
  define itemsResponse where
    "itemsResponse = fst (callService reg net ''item-service'' ''/items'' ''GET'' None [(''limit'', JNum 10)])"
  define listsResponse where
    "listsResponse = fst (callService reg net ''list-service'' ''/lists'' ''GET'' (authorization req)
                            [(''limit'', JNum 5)])"
  define categoriesResponse where
    "categoriesResponse = fst (callService reg net ''item-service'' ''/categories'' ''GET'' None [])"
  define itemResults where
    "itemResults = fst (callService reg net ''item-service'' ''/search'' ''GET'' None [(''q'', query_q req)])"
  define listResults where
    "listResults = fst (callService reg net ''list-service'' ''/search'' ''GET'' (authorization req)
                          [(''q'', query_q req), (''limit'', JNum 10)])"
  note defs = userResponse_def itemsResponse_def listsResponse_def categoriesResponse_def
    itemResults_def listResults_def
  have dash: "if fulfilled_nullish userResponse \<or> fulfilled_nullish itemsResponse \<or>
                 fulfilled_nullish listsResponse \<or> fulfilled_nullish categoriesResponse
              then res_status (fst (getDashboard reg net timestamp req)) = 500
              else res_status (fst (getDashboard reg net timestamp req)) = 200 \<and>
                   get_prop (res_body (fst (getDashboard reg net timestamp req))) ''success'' = Some (JBool True) \<and>
                   dashboard_outcome (at_path (res_body (fst (getDashboard reg net timestamp req)))
                                        [''data'', ''user_data'', ''profile'']) userResponse \<and>
                   dashboard_outcome (at_path (res_body (fst (getDashboard reg net timestamp req)))
                                        [''data'', ''shopping_data'', ''lists'']) listsResponse \<and>
                   dashboard_outcome (at_path (res_body (fst (getDashboard reg net timestamp req)))
                                        [''data'', ''shopping_data'', ''items'']) itemsResponse \<and>
                   dashboard_outcome (at_path (res_body (fst (getDashboard reg net timestamp req)))
                                        [''data'', ''shopping_data'', ''categories'']) categoriesResponse"
    if auth: "present (authorization req)"
  proof (cases "fulfilled_nullish userResponse \<or> fulfilled_nullish itemsResponse \<or>
                fulfilled_nullish listsResponse \<or> fulfilled_nullish categoriesResponse")
    case True
    then have "dashboardEntry userResponse = None \<or> dashboardEntry itemsResponse = None \<or>
               dashboardEntry listsResponse = None \<or> dashboardEntry categoriesResponse = None"
      by (simp add: dashboardEntry_None)
    then have "res_status (fst (getDashboard reg net timestamp req)) = 500"
      unfolding getDashboard_authenticated [OF auth] defs [symmetric]
      by (auto split: option.splits)
    then show ?thesis
      using True by simp
  next
    case False
    then obtain profileE listsE itemsE categoriesE where
      e: "dashboardEntry userResponse = Some profileE" "dashboardEntry listsResponse = Some listsE"
         "dashboardEntry itemsResponse = Some itemsE" "dashboardEntry categoriesResponse = Some categoriesE"
      using dashboardEntry_None by (metis option.exhaust)
    have o: "dashboard_outcome profileE userResponse" "dashboard_outcome listsE listsResponse"
      "dashboard_outcome itemsE itemsResponse" "dashboard_outcome categoriesE categoriesResponse"
      using e by (simp_all add: dashboardEntry_outcome)
    show ?thesis
      using False o
      unfolding getDashboard_authenticated [OF auth] defs [symmetric]
      by (simp add: e get_prop_opt_def)
  qed
  have search_auth:
    "if fulfilled_nullish itemResults \<or> fulfilled_nullish listResults
     then res_status (fst (globalSearch reg net req)) = 500
     else res_status (fst (globalSearch reg net req)) = 200 \<and>
          get_prop (res_body (fst (globalSearch reg net req))) ''success'' = Some (JBool True) \<and>
          search_outcome (at_path (res_body (fst (globalSearch reg net req))) [''data'', ''items'']) itemResults \<and>
          search_outcome (at_path (res_body (fst (globalSearch reg net req))) [''data'', ''lists'']) listResults"
    if q: "truthy (query_q req)" and auth: "present (authorization req)"
  proof (cases "fulfilled_nullish itemResults \<or> fulfilled_nullish listResults")
    case True
    then have "searchEntry itemResults = None \<or> searchEntry listResults = None"
      by (simp add: searchEntry_None)
    then have "res_status (fst (globalSearch reg net req)) = 500"
      unfolding globalSearch_authenticated [OF q auth] defs [symmetric]
      by (auto simp: searchError_def split: option.splits)
    then show ?thesis
      using True by simp
  next
    case False
    then obtain itemsE listsE where
      e: "searchEntry itemResults = Some itemsE" "searchEntry listResults = Some listsE"
      using searchEntry_None by (metis option.exhaust)
    have o: "search_outcome itemsE itemResults" "search_outcome listsE listResults"
      using e by (simp_all add: searchEntry_outcome)
    show ?thesis
      using False o
      unfolding globalSearch_authenticated [OF q auth] defs [symmetric]
      by (simp add: e get_prop_opt_def)
  qed
  have search_anon:
    "if fulfilled_nullish itemResults
     then res_status (fst (globalSearch reg net req)) = 500
     else res_status (fst (globalSearch reg net req)) = 200 \<and>
          get_prop (res_body (fst (globalSearch reg net req))) ''success'' = Some (JBool True) \<and>
          search_outcome (at_path (res_body (fst (globalSearch reg net req))) [''data'', ''items'']) itemResults"
    if q: "truthy (query_q req)" and anon: "\<not> present (authorization req)"
  proof (cases "fulfilled_nullish itemResults")
    case True
    then have "searchEntry itemResults = None"
      by (simp add: searchEntry_None)
    then have "res_status (fst (globalSearch reg net req)) = 500"
      unfolding globalSearch_anonymous [OF q anon] defs [symmetric]
      by (simp add: searchError_def)
    then show ?thesis
      using True by simp
  next
    case False
    then obtain itemsE where e: "searchEntry itemResults = Some itemsE"
      using searchEntry_None by (metis option.exhaust)
    have o: "search_outcome itemsE itemResults"
      using e by (simp add: searchEntry_outcome)
    show ?thesis
      using False o
      unfolding globalSearch_anonymous [OF q anon] defs [symmetric]
      by (simp add: e get_prop_opt_def)
  qed
  show ?thesis
    unfolding Let_def defs [symmetric]
  proof (intro conjI impI)
    assume "present (authorization req)"
    then show "if fulfilled_nullish userResponse \<or> fulfilled_nullish itemsResponse \<or>
                  fulfilled_nullish listsResponse \<or> fulfilled_nullish categoriesResponse
               then res_status (fst (getDashboard reg net timestamp req)) = 500
               else res_status (fst (getDashboard reg net timestamp req)) = 200 \<and>
                    get_prop (res_body (fst (getDashboard reg net timestamp req))) ''success'' = Some (JBool True) \<and>
                    dashboard_outcome (at_path (res_body (fst (getDashboard reg net timestamp req)))
                                         [''data'', ''user_data'', ''profile'']) userResponse \<and>
                    dashboard_outcome (at_path (res_body (fst (getDashboard reg net timestamp req)))
                                         [''data'', ''shopping_data'', ''lists'']) listsResponse \<and>
                    dashboard_outcome (at_path (res_body (fst (getDashboard reg net timestamp req)))
                                         [''data'', ''shopping_data'', ''items'']) itemsResponse \<and>
                    dashboard_outcome (at_path (res_body (fst (getDashboard reg net timestamp req)))
                                         [''data'', ''shopping_data'', ''categories'']) categoriesResponse"
      by (rule dash)
  next
    assume q: "truthy (query_q req)"
    show "if present (authorization req)
          then if fulfilled_nullish itemResults \<or> fulfilled_nullish listResults
               then res_status (fst (globalSearch reg net req)) = 500
               else res_status (fst (globalSearch reg net req)) = 200 \<and>
                    get_prop (res_body (fst (globalSearch reg net req))) ''success'' = Some (JBool True) \<and>
                    search_outcome (at_path (res_body (fst (globalSearch reg net req))) [''data'', ''items''])
                      itemResults \<and>
                    search_outcome (at_path (res_body (fst (globalSearch reg net req))) [''data'', ''lists''])
                      listResults
          else if fulfilled_nullish itemResults
               then res_status (fst (globalSearch reg net req)) = 500
               else res_status (fst (globalSearch reg net req)) = 200 \<and>
                    get_prop (res_body (fst (globalSearch reg net req))) ''success'' = Some (JBool True) \<and>
                    search_outcome (at_path (res_body (fst (globalSearch reg net req))) [''data'', ''items''])
                      itemResults"
    proof (cases "present (authorization req)")
      case True
      show ?thesis
        using search_auth [OF q True] True by (simp split del: if_split)
    next
      case False
      show ?thesis
        using search_anon [OF q False] False by (simp split del: if_split)
    qed
  qed
qed

theorem C5_aggregates_report_every_label_witness:
  "present (authorization dashboard_request) \<and>
   res_status (fst (getDashboard full_registry net_refused ''2025-01-01T00:00:00.000Z'' dashboard_request)) = 200 \<and>
   dashboard_outcome
     (at_path (res_body (fst (getDashboard full_registry net_refused ''2025-01-01T00:00:00.000Z''
                                dashboard_request))) [''data'', ''user_data'', ''profile''])
     (Inl \<lparr>err_code = Some ''ECONNREFUSED'', err_message = ''connect ECONNREFUSED 127.0.0.1:3003'',
           err_response = None\<rparr>) \<and>
   dashboard_outcome
     (at_path (res_body (fst (getDashboard full_registry net_refused ''2025-01-01T00:00:00.000Z''
                                dashboard_request))) [''data'', ''shopping_data'', ''categories''])
     (Inl \<lparr>err_code = Some ''ECONNREFUSED'', err_message = ''connect ECONNREFUSED 127.0.0.1:3003'',
           err_response = None\<rparr>) \<and>
   truthy (query_q search_request) \<and>
   res_status (fst (globalSearch full_registry net_refused search_request)) = 200 \<and>
   search_outcome
     (at_path (res_body (fst (globalSearch full_registry net_refused search_request))) [''data'', ''items''])
     (Inl \<lparr>err_code = Some ''ECONNREFUSED'', err_message = ''connect ECONNREFUSED 127.0.0.1:3003'',
           err_response = None\<rparr>)"
proof -
  let ?e = "\<lparr>err_code = Some ''ECONNREFUSED'', err_message = ''connect ECONNREFUSED 127.0.0.1:3003'',
             err_response = None\<rparr>"
  have c: "fst (callService full_registry net_refused n p m h ps) = Inl ?e"
    if "n = ''user-service'' \<or> n = ''item-service'' \<or> n = ''list-service''"
    for n p m h ps
    using that
    by (auto simp: callService_def discover_def full_registry_def axios_def net_refused_def Let_def)
  have n: "\<not> fulfilled_nullish (Inl ?e)"
    by (simp add: fulfilled_nullish_def)
  have a: "present (authorization dashboard_request)"
    by (simp add: authorization_def present_def dashboard_request_def)
  have b: "\<not> present (authorization search_request)"
    by (simp add: authorization_def present_def search_request_def)
  have q: "truthy (query_q search_request)"
    by (simp add: query_q_def search_request_def)
  show ?thesis
    using a q
      C5_aggregates_report_every_label
        [of dashboard_request full_registry net_refused "''2025-01-01T00:00:00.000Z''"]
      C5_aggregates_report_every_label
        [of search_request full_registry net_refused "''2025-01-01T00:00:00.000Z''"]
    by (simp add: c n b Let_def)
qed

end
